theory Spec2Isabelle
  imports Main "HOL-Library.Multiset" "HOL-Library.Sublist"
begin

section \<open>The superpack hook runner (src/plugins/superpack-hooks.ts)\<close>

text \<open>
  The module exports \<open>createSuperpackHookRunner\<close>: given a list of hook registrations it
  returns six invocation functions, one per hook name, and the query \<open>hasHooks\<close>.
  The closures over \<open>registrations\<close> are written here as functions that take the
  registration list as their first argument.
\<close>

subsection \<open>Hook names, events and results\<close>

datatype SuperpackHookName =
    system_prompt_tools_filter
  | system_prompt_skills_filter
  | system_prompt_footer
  | workspace_bootstrap_before
  | workspace_bootstrap_after
  | subagent_prompt_validate

text \<open>
  Field names live in one name space in HOL, so a field that occurs in several of the source's
  object types carries a suffix: \<open>tf\<close> (tools filter), \<open>sf\<close> (skills filter),
  \<open>ft\<close> (footer), \<open>bb\<close> (bootstrap before), \<open>ba\<close> (bootstrap after),
  \<open>sv\<close> (subagent validate). An optional property (\<open>description?: string\<close>) is an
  \<open>option\<close>.
\<close>

record ToolEntry =
  name_tool :: string
  description :: "string option"

record SystemPromptToolsFilterEvent =
  agentId_tf :: string
  promptMode_tf :: string
  tools_tf :: "ToolEntry list"

record SystemPromptSkillsFilterEvent =
  agentId_sf :: string
  promptMode_sf :: string
  skillsPrompt_sf :: string

record SystemPromptFooterEvent =
  agentId_ft :: string
  promptMode_ft :: string
  currentPrompt :: string

record BootstrapFile =
  name_file :: string
  content :: string

record WorkspaceBootstrapBeforeEvent =
  workspaceDir_bb :: string
  files_bb :: "BootstrapFile list"
  isNewWorkspace :: bool

record WorkspaceBootstrapAfterEvent =
  workspaceDir_ba :: string
  filesWritten :: "string list"
  filesSkipped :: "string list"

record SubagentPromptValidateEvent =
  agentId_sv :: string
  parentAgentId :: string
  systemPrompt :: string
  sessionKey :: string

text \<open>
  A handler is an untyped JavaScript function at run time: whatever hook it is registered for,
  it is called with the event object of the hook being run. The argument of a handler is
  therefore the sum of the six event types.
\<close>

datatype HookEvent =
    ToolsFilterEvent SystemPromptToolsFilterEvent
  | SkillsFilterEvent SystemPromptSkillsFilterEvent
  | FooterEvent SystemPromptFooterEvent
  | BootstrapBeforeEvent WorkspaceBootstrapBeforeEvent
  | BootstrapAfterEvent WorkspaceBootstrapAfterEvent
  | ValidateEvent SubagentPromptValidateEvent

text \<open>
  A result object, as a handler returns it and as the runner returns it: a JavaScript object
  on which each property of the five result types is present (\<open>Some\<close>) or absent
  (\<open>None\<close>). \<open>{ tools: current }\<close> is the object with \<open>tools\<close> present and
  nothing else. The runner reads a handler's result by property (\<open>result?.tools\<close>,
  \<open>"skillsPrompt" in result\<close>), so a result with missing properties is an input
  the code handles. Property values have the types the source declares. Events, results and
  the arrays in them are values here: a handler answers with a result and acts on its world,
  it does not change in place the array it was handed. The event objects are put behind
  references in the subsection on the event objects as references.
\<close>

record HookResult =
  tools :: "ToolEntry list option"
  skillsPrompt :: "string option"
  append_ft :: "string option"
  files :: "BootstrapFile list option"
  skip :: "bool option"
  block :: "bool option"
  reason :: "string option"

definition empty_object :: HookResult where
  "empty_object =
     \<lparr>tools = None, skillsPrompt = None, append_ft = None, files = None, skip = None,
      block = None, reason = None\<rparr>"

subsection \<open>Handlers and registrations\<close>

text \<open>
  What a call of a handler gives back to the runner: a value or nothing (\<open>void\<close>),
  synchronously; an exception thrown synchronously; or a promise that is fulfilled with a
  value or nothing, or rejected. Every call is taken to settle: a handler that never settles
  stalls the runner, which has no timeout (section 5 of the specification lists this as a
  known limitation), and is outside this model.
\<close>

datatype JsError = JsError string

datatype HandlerReturn =
    Returns "HookResult option"
  | Throws JsError
  | Resolves "HookResult option"
  | Rejects JsError

text \<open>
  A handler may have effects of its own (the tests' handlers push to a log). The type
  \<^typ>\<open>'w\<close> stands for everything a handler can read and write; the handler's answer may depend
  on it. The priority is a JavaScript number in the source and an integer in the
  specification's data model; it is an integer here. The comparator reads it as
  \<open>priority ?? 0\<close>, so a registration that comes without a priority is an input the code
  handles: the field is an \<open>option\<close>, and \<open>priority_or_0\<close> is \<open>priority ?? 0\<close>.
\<close>

type_synonym 'w Handler = "HookEvent \<Rightarrow> 'w \<Rightarrow> HandlerReturn \<times> 'w"

record 'w HookRegistration =
  hookName :: SuperpackHookName
  handler :: "'w Handler"
  priority :: "int option"

subsection \<open>sortByPriority, getHooks, hasHooks\<close>

text \<open>
  \<open>Array.prototype.sort\<close> with a comparator: \<open>cmp a b < 0\<close> puts \<open>a\<close> first,
  \<open>cmp a b > 0\<close> puts \<open>b\<close> first, and the sort is stable (ECMAScript 2019). It is
  written as the stable insertion sort; lemma \<open>sortByPriority_unique\<close> shows that
  every list that is a stable descending arrangement of the input is this one, so the choice of
  algorithm does not matter.
\<close>

fun insert_cmp :: "('a \<Rightarrow> 'a \<Rightarrow> int) \<Rightarrow> 'a \<Rightarrow> 'a list \<Rightarrow> 'a list" where
  "insert_cmp cmp a [] = [a]"
| "insert_cmp cmp a (b # bs) =
     (if cmp a b \<le> 0 then a # b # bs else b # insert_cmp cmp a bs)"

fun array_sort :: "('a \<Rightarrow> 'a \<Rightarrow> int) \<Rightarrow> 'a list \<Rightarrow> 'a list" where
  "array_sort cmp [] = []"
| "array_sort cmp (a # as) = insert_cmp cmp a (array_sort cmp as)"

definition priority_or_0 :: "'w HookRegistration \<Rightarrow> int" where
  "priority_or_0 r = (case priority r of Some p \<Rightarrow> p | None \<Rightarrow> 0)"

definition compare_priority :: "'w HookRegistration \<Rightarrow> 'w HookRegistration \<Rightarrow> int" where
  "compare_priority a b = priority_or_0 b - priority_or_0 a"

definition sortByPriority :: "'w HookRegistration list \<Rightarrow> 'w HookRegistration list" where
  "sortByPriority hooks = array_sort compare_priority hooks"

definition getHooks ::
  "'w HookRegistration list \<Rightarrow> SuperpackHookName \<Rightarrow> 'w HookRegistration list" where
  "getHooks registrations name =
     sortByPriority (filter (\<lambda>r. hookName r = name) registrations)"

definition hasHooks :: "'w HookRegistration list \<Rightarrow> SuperpackHookName \<Rightarrow> bool" where
  "hasHooks registrations name = list_ex (\<lambda>r. hookName r = name) registrations"

subsection \<open>Calls, exceptions and promises\<close>

text \<open>
  The runner's functions are \<open>async\<close>: each returns a promise, which is fulfilled with a
  value (\<open>Inr\<close>) or rejected with an error (\<open>Inl\<close>). The state that is threaded through a run
  is the handlers' world together with the record of the handler calls made so far, in the
  order in which they were made: which registration was called, with which event object, and
  what the \<open>await\<close> of the call gave.
\<close>

record 'w Call =
  call_hook :: "'w HookRegistration"
  call_event :: HookEvent
  call_outcome :: "JsError + HookResult option"

record 'w RunState =
  world :: 'w
  calls :: "'w Call list"

definition start :: "'w \<Rightarrow> 'w RunState" where
  "start w = \<lparr>world = w, calls = []\<rparr>"

type_synonym ('a, 'w) Async = "'w RunState \<Rightarrow> (JsError + 'a) \<times> 'w RunState"

text \<open>
  The three combinators below do not look into the state, so they are stated for any state
  \<^typ>\<open>'s\<close>: the runs above thread a \<^typ>\<open>'w RunState\<close>, the runs over the store of event
  objects further down thread a store.
\<close>

type_synonym ('a, 's) Task = "'s \<Rightarrow> (JsError + 'a) \<times> 's"

definition resolve :: "'a \<Rightarrow> ('a, 's) Task" where
  "resolve x s = (Inr x, s)"

text \<open>Sequencing of statements: an exception in the first skips the rest.\<close>

definition bind_async :: "('a, 's) Task \<Rightarrow> ('a \<Rightarrow> ('b, 's) Task) \<Rightarrow> ('b, 's) Task" where
  "bind_async m f s = (case m s of (Inl e, s') \<Rightarrow> (Inl e, s') | (Inr x, s') \<Rightarrow> f x s')"

text \<open>\<open>try { body } catch { recover }\<close>: the catch clauses of this module bind no error.\<close>

definition try_catch :: "('a, 's) Task \<Rightarrow> ('a, 's) Task \<Rightarrow> ('a, 's) Task" where
  "try_catch body recover s =
     (case body s of (Inl e, s') \<Rightarrow> recover s' | (Inr x, s') \<Rightarrow> (Inr x, s'))"

text \<open>
  \<open>await v\<close>: a value that is not a promise is passed on, a fulfilled promise gives its value,
  a rejected promise raises its error where the \<open>await\<close> stands. A synchronous throw of the
  handler is raised at the same place, inside the same \<open>try\<close>.
\<close>

fun await :: "HandlerReturn \<Rightarrow> JsError + HookResult option" where
  "await (Returns v) = Inr v"
| "await (Throws e) = Inl e"
| "await (Resolves v) = Inr v"
| "await (Rejects e) = Inl e"

text \<open>\<open>await hook.handler(event)\<close>\<close>

definition await_handler ::
  "'w HookRegistration \<Rightarrow> HookEvent \<Rightarrow> (HookResult option, 'w) Async" where
  "await_handler hook event s =
     (case handler hook event (world s) of
        (ret, w') \<Rightarrow>
          (await ret,
           \<lparr>world = w',
            calls = calls s @ [\<lparr>call_hook = hook, call_event = event, call_outcome = await ret\<rparr>]\<rparr>))"

subsection \<open>The six invocation functions\<close>

text \<open>
  Each \<open>for (const hook of hooks) { try { ... } catch { } }\<close> loop is a recursion over the
  list of hooks that carries the loop's local variables.
\<close>

fun tools_filter_loop ::
  "'w HookRegistration list \<Rightarrow> SystemPromptToolsFilterEvent \<Rightarrow> ToolEntry list \<Rightarrow>
   (ToolEntry list, 'w) Async" where
  "tools_filter_loop [] event current = resolve current"
| "tools_filter_loop (hook # hooks) event current =
     bind_async
       (try_catch
          (bind_async (await_handler hook (ToolsFilterEvent (event\<lparr>tools_tf := current\<rparr>)))
             (\<lambda>result. resolve
                (case result of
                   None \<Rightarrow> current
                 | Some r \<Rightarrow> (case tools r of None \<Rightarrow> current | Some ts \<Rightarrow> ts))))
          (resolve current))
       (\<lambda>current'. tools_filter_loop hooks event current')"

definition runSystemPromptToolsFilter ::
  "'w HookRegistration list \<Rightarrow> SystemPromptToolsFilterEvent \<Rightarrow> (HookResult, 'w) Async" where
  "runSystemPromptToolsFilter registrations event =
     bind_async
       (tools_filter_loop (getHooks registrations system_prompt_tools_filter) event
          (tools_tf event))
       (\<lambda>current. resolve (empty_object\<lparr>tools := Some current\<rparr>))"

fun skills_filter_loop ::
  "'w HookRegistration list \<Rightarrow> SystemPromptSkillsFilterEvent \<Rightarrow> string \<Rightarrow>
   (string, 'w) Async" where
  "skills_filter_loop [] event current = resolve current"
| "skills_filter_loop (hook # hooks) event current =
     bind_async
       (try_catch
          (bind_async
             (await_handler hook (SkillsFilterEvent (event\<lparr>skillsPrompt_sf := current\<rparr>)))
             (\<lambda>result. resolve
                (case result of
                   None \<Rightarrow> current
                 | Some r \<Rightarrow> (case skillsPrompt r of None \<Rightarrow> current | Some p \<Rightarrow> p))))
          (resolve current))
       (\<lambda>current'. skills_filter_loop hooks event current')"

definition runSystemPromptSkillsFilter ::
  "'w HookRegistration list \<Rightarrow> SystemPromptSkillsFilterEvent \<Rightarrow> (HookResult, 'w) Async" where
  "runSystemPromptSkillsFilter registrations event =
     bind_async
       (skills_filter_loop (getHooks registrations system_prompt_skills_filter) event
          (skillsPrompt_sf event))
       (\<lambda>current. resolve (empty_object\<lparr>skillsPrompt := Some current\<rparr>))"

text \<open>\<open>parts.join("\n")\<close>\<close>

fun join :: "string \<Rightarrow> string list \<Rightarrow> string" where
  "join sep [] = []"
| "join sep [p] = p"
| "join sep (p # q # ps) = p @ sep @ join sep (q # ps)"

definition newline :: string where
  "newline = [CHR 0x0A]"

text \<open>\<open>result?.append\<close> is truthy when the property is present and is not the empty string.\<close>

fun footer_loop ::
  "'w HookRegistration list \<Rightarrow> SystemPromptFooterEvent \<Rightarrow> string list \<Rightarrow>
   (string list, 'w) Async" where
  "footer_loop [] event parts = resolve parts"
| "footer_loop (hook # hooks) event parts =
     bind_async
       (try_catch
          (bind_async (await_handler hook (FooterEvent event))
             (\<lambda>result. resolve
                (case result of
                   None \<Rightarrow> parts
                 | Some r \<Rightarrow>
                     (case append_ft r of
                        None \<Rightarrow> parts
                      | Some a \<Rightarrow> if a \<noteq> [] then parts @ [a] else parts))))
          (resolve parts))
       (\<lambda>parts'. footer_loop hooks event parts')"

definition runSystemPromptFooter ::
  "'w HookRegistration list \<Rightarrow> SystemPromptFooterEvent \<Rightarrow> (HookResult, 'w) Async" where
  "runSystemPromptFooter registrations event =
     bind_async (footer_loop (getHooks registrations system_prompt_footer) event [])
       (\<lambda>parts. resolve (empty_object\<lparr>append_ft := Some (join newline parts)\<rparr>))"

fun bootstrap_before_loop ::
  "'w HookRegistration list \<Rightarrow> WorkspaceBootstrapBeforeEvent \<Rightarrow> BootstrapFile list \<times> bool \<Rightarrow>
   (BootstrapFile list \<times> bool, 'w) Async" where
  "bootstrap_before_loop [] event (currentFiles, skp) = resolve (currentFiles, skp)"
| "bootstrap_before_loop (hook # hooks) event (currentFiles, skp) =
     bind_async
       (try_catch
          (bind_async
             (await_handler hook (BootstrapBeforeEvent (event\<lparr>files_bb := currentFiles\<rparr>)))
             (\<lambda>result. resolve
                (case result of
                   None \<Rightarrow> (currentFiles, skp)
                 | Some r \<Rightarrow>
                     ((case files r of None \<Rightarrow> currentFiles | Some fs \<Rightarrow> fs),
                      (if skip r = Some True then True else skp)))))
          (resolve (currentFiles, skp)))
       (\<lambda>locals. bootstrap_before_loop hooks event locals)"

definition runWorkspaceBootstrapBefore ::
  "'w HookRegistration list \<Rightarrow> WorkspaceBootstrapBeforeEvent \<Rightarrow> (HookResult, 'w) Async" where
  "runWorkspaceBootstrapBefore registrations event =
     bind_async
       (bootstrap_before_loop (getHooks registrations workspace_bootstrap_before) event
          (files_bb event, False))
       (\<lambda>(currentFiles, skp).
          resolve (empty_object\<lparr>files := Some currentFiles, skip := Some skp\<rparr>))"

text \<open>
  \<open>hooks.map(async (hook) => { try { await hook.handler(event) } catch { } })\<close> calls every
  handler, in the order of \<open>hooks\<close>, and gives one promise per hook; \<open>Promise.all\<close> is
  fulfilled when all of them are, and rejected when one of them is. The calls are recorded in
  the order in which \<open>map\<close> makes them, and each handler's effect on the world is applied at
  its call; how the asynchronous remainders of the handlers interleave in time is not part of
  this model.
\<close>

definition bootstrap_after_task ::
  "'w HookRegistration \<Rightarrow> WorkspaceBootstrapAfterEvent \<Rightarrow> (unit, 'w) Async" where
  "bootstrap_after_task hook event =
     try_catch
       (bind_async (await_handler hook (BootstrapAfterEvent event)) (\<lambda>result. resolve ()))
       (resolve ())"

fun promise_all :: "('a, 'w) Async list \<Rightarrow> ('a list, 'w) Async" where
  "promise_all [] s = (Inr [], s)"
| "promise_all (p # ps) s =
     (case p s of
        (r, s') \<Rightarrow>
          (case promise_all ps s' of
             (rs, s'') \<Rightarrow>
               ((case r of
                   Inl e \<Rightarrow> Inl e
                 | Inr x \<Rightarrow> (case rs of Inl e \<Rightarrow> Inl e | Inr xs \<Rightarrow> Inr (x # xs))),
                s'')))"

definition runWorkspaceBootstrapAfter ::
  "'w HookRegistration list \<Rightarrow> WorkspaceBootstrapAfterEvent \<Rightarrow> (unit, 'w) Async" where
  "runWorkspaceBootstrapAfter registrations event =
     bind_async
       (promise_all
          (map (\<lambda>hook. bootstrap_after_task hook event)
             (getHooks registrations workspace_bootstrap_after)))
       (\<lambda>settled. resolve ())"

text \<open>
  The loop of \<open>runSubagentPromptValidate\<close> returns from inside the \<open>try\<close>: the body of one
  iteration gives \<open>Some\<close> of the value to return, or \<open>None\<close> to go on.
\<close>

fun validate_loop ::
  "'w HookRegistration list \<Rightarrow> SubagentPromptValidateEvent \<Rightarrow> (HookResult, 'w) Async" where
  "validate_loop [] event = resolve (empty_object\<lparr>block := Some False\<rparr>)"
| "validate_loop (hook # hooks) event =
     bind_async
       (try_catch
          (bind_async (await_handler hook (ValidateEvent event))
             (\<lambda>result. resolve
                (case result of
                   None \<Rightarrow> None
                 | Some r \<Rightarrow>
                     if block r = Some True
                     then Some (empty_object\<lparr>block := Some True, reason := reason r\<rparr>)
                     else None)))
          (resolve None))
       (\<lambda>returned. case returned of Some r \<Rightarrow> resolve r | None \<Rightarrow> validate_loop hooks event)"

definition runSubagentPromptValidate ::
  "'w HookRegistration list \<Rightarrow> SubagentPromptValidateEvent \<Rightarrow> (HookResult, 'w) Async" where
  "runSubagentPromptValidate registrations event =
     validate_loop (getHooks registrations subagent_prompt_validate) event"

subsection \<open>Reading a run\<close>

text \<open>A run from a world in which no call has been recorded yet: its result, its calls, its final world.\<close>

definition result_of :: "('a, 'w) Async \<Rightarrow> 'w \<Rightarrow> JsError + 'a" where
  "result_of m w = fst (m (start w))"

definition calls_of :: "('a, 'w) Async \<Rightarrow> 'w \<Rightarrow> 'w Call list" where
  "calls_of m w = calls (snd (m (start w)))"

definition world_of :: "('a, 'w) Async \<Rightarrow> 'w \<Rightarrow> 'w" where
  "world_of m w = world (snd (m (start w)))"

type_synonym Outcome = "JsError + HookResult option"

text \<open>
  The calls \<open>cs\<close> were made one after the other, starting in world \<open>w\<close> and ending in
  \<open>w'\<close>: each call ran in the world its predecessor left, and its recorded outcome is what
  the handler gave there.
\<close>

fun sequential_run :: "'w \<Rightarrow> 'w Call list \<Rightarrow> 'w \<Rightarrow> bool" where
  "sequential_run w [] w' = (w' = w)"
| "sequential_run w (c # cs) w' =
     (call_outcome c = await (fst (handler (call_hook c) (call_event c) w)) \<and>
      sequential_run (snd (handler (call_hook c) (call_event c) w)) cs w')"

text \<open>
  Every call of \<open>cs\<close> received the view of the value that the calls before it had produced,
  starting from \<open>cur\<close>.
\<close>

fun chained ::
  "('c \<Rightarrow> HookEvent) \<Rightarrow> ('c \<Rightarrow> Outcome \<Rightarrow> 'c) \<Rightarrow> 'c \<Rightarrow> 'w Call list \<Rightarrow> bool" where
  "chained view nxt cur [] = True"
| "chained view nxt cur (c # cs) =
     (call_event c = view cur \<and> chained view nxt (nxt cur (call_outcome c)) cs)"

subsection \<open>The folding rules, in the words of the specification\<close>

text \<open>
  Sequential-modifying hooks: a handler that throws (or rejects) or returns nothing leaves
  \<open>current\<close> unchanged; a result that contains the field replaces \<open>current\<close> by the field's
  value; a result without the field counts as no result.
\<close>

fun spec_next_tools :: "ToolEntry list \<Rightarrow> Outcome \<Rightarrow> ToolEntry list" where
  "spec_next_tools current (Inl e) = current"
| "spec_next_tools current (Inr None) = current"
| "spec_next_tools current (Inr (Some r)) =
     (case tools r of Some ts \<Rightarrow> ts | None \<Rightarrow> current)"

fun spec_next_skills :: "string \<Rightarrow> Outcome \<Rightarrow> string" where
  "spec_next_skills current (Inl e) = current"
| "spec_next_skills current (Inr None) = current"
| "spec_next_skills current (Inr (Some r)) =
     (case skillsPrompt r of Some p \<Rightarrow> p | None \<Rightarrow> current)"

fun spec_next_files :: "BootstrapFile list \<Rightarrow> Outcome \<Rightarrow> BootstrapFile list" where
  "spec_next_files current (Inl e) = current"
| "spec_next_files current (Inr None) = current"
| "spec_next_files current (Inr (Some r)) =
     (case files r of Some fs \<Rightarrow> fs | None \<Rightarrow> current)"

text \<open>A handler that did not throw returned a result with \<open>skip\<close> true.\<close>

fun sets_skip :: "Outcome \<Rightarrow> bool" where
  "sets_skip (Inr (Some r)) = (skip r = Some True)"
| "sets_skip (Inr None) = False"
| "sets_skip (Inl e) = False"

text \<open>The non-empty fragment a handler contributes to the footer, if any.\<close>

fun fragment :: "Outcome \<Rightarrow> string list" where
  "fragment (Inr (Some r)) =
     (case append_ft r of Some a \<Rightarrow> (if a = [] then [] else [a]) | None \<Rightarrow> [])"
| "fragment (Inr None) = []"
| "fragment (Inl e) = []"

text \<open>A handler blocks when its result has a truthy \<open>block\<close> field; its reason is the result's.\<close>

fun blocks :: "Outcome \<Rightarrow> bool" where
  "blocks (Inr (Some r)) = (block r = Some True)"
| "blocks (Inr None) = False"
| "blocks (Inl e) = False"

fun reason_of :: "Outcome \<Rightarrow> string option" where
  "reason_of (Inr (Some r)) = reason r"
| "reason_of (Inr None) = None"
| "reason_of (Inl e) = None"

subsection \<open>The arrays of getHooks as references\<close>

text \<open>
  JavaScript arrays are objects behind references, and \<open>sort\<close> sorts its receiver in place.
  To see what \<open>getHooks\<close> writes, the arrays are put in a store: the list of the arrays
  allocated so far, a reference being an index into it. \<open>registrations.filter(...)\<close>
  allocates a new array, \<open>[...hooks]\<close> allocates a copy, and \<open>.sort(...)\<close> overwrites the array
  it is called on and returns the same reference. The runner passes the registration list to
  no handler, and the rest of each invocation function only reads \<open>hooks\<close>.
\<close>

type_synonym Ref = nat

type_synonym 'a Store = "'a list list"

definition new_array :: "'a list \<Rightarrow> 'a Store \<Rightarrow> Ref \<times> 'a Store" where
  "new_array elems st = (length st, st @ [elems])"

definition Array_filter :: "('a \<Rightarrow> bool) \<Rightarrow> Ref \<Rightarrow> 'a Store \<Rightarrow> Ref \<times> 'a Store" where
  "Array_filter p arr st = new_array (filter p (st ! arr)) st"

definition Array_spread :: "Ref \<Rightarrow> 'a Store \<Rightarrow> Ref \<times> 'a Store" where
  "Array_spread arr st = new_array (st ! arr) st"

definition Array_sort :: "('a \<Rightarrow> 'a \<Rightarrow> int) \<Rightarrow> Ref \<Rightarrow> 'a Store \<Rightarrow> Ref \<times> 'a Store" where
  "Array_sort cmp arr st = (arr, st[arr := array_sort cmp (st ! arr)])"

definition sortByPriority_ref ::
  "Ref \<Rightarrow> 'w HookRegistration Store \<Rightarrow> Ref \<times> 'w HookRegistration Store" where
  "sortByPriority_ref hooks st =
     (case Array_spread hooks st of (copy, st1) \<Rightarrow> Array_sort compare_priority copy st1)"

definition getHooks_ref ::
  "Ref \<Rightarrow> SuperpackHookName \<Rightarrow> 'w HookRegistration Store \<Rightarrow>
   Ref \<times> 'w HookRegistration Store" where
  "getHooks_ref registrations name st =
     (case Array_filter (\<lambda>r. hookName r = name) registrations st of
        (matching, st1) \<Rightarrow> sortByPriority_ref matching st1)"

text \<open>
  The store after a sequence of invocations, given by the hook names they are for: every
  invocation function begins with \<open>getHooks(registrations, name)\<close>.
\<close>

fun after_invocations ::
  "Ref \<Rightarrow> SuperpackHookName list \<Rightarrow> 'w HookRegistration Store \<Rightarrow> 'w HookRegistration Store" where
  "after_invocations registrations [] st = st"
| "after_invocations registrations (name # names) st =
     after_invocations registrations names (snd (getHooks_ref registrations name st))"

text \<open>The array of hooks that an invocation for \<open>name\<close> iterates over, started in store \<open>st\<close>.\<close>

definition hooks_seen ::
  "Ref \<Rightarrow> SuperpackHookName \<Rightarrow> 'w HookRegistration Store \<Rightarrow> 'w HookRegistration list" where
  "hooks_seen registrations name st =
     (case getHooks_ref registrations name st of (hooks, st') \<Rightarrow> st' ! hooks)"

subsection \<open>The event objects as references\<close>

text \<open>
  A JavaScript object is handed over by reference. To see which object a handler of a
  sequential-modifying hook is handed, and what the runner writes, the event objects are put
  in a store, as the arrays of \<open>getHooks\<close> are above: the store is the list of the event
  objects allocated so far and a reference is an index into it. The caller's event is a
  reference \<open>event\<close> into the store; \<open>event.tools\<close> reads the object behind it;
  \<open>{ ...event, tools: current }\<close> reads that object again, allocates a new object with its
  fields and \<open>tools\<close> replaced, and gives the new reference; nothing in the three functions
  assigns to a property of an object.

  A handler is code of a plugin: it may read and write every object of the store, allocate
  objects, and act on the rest of its world \<^typ>\<open>'u\<close>. Its world is the store together with
  \<^typ>\<open>'u\<close>. It is called with the object behind the reference it is handed, which is the
  newest object of the store it is called in. The fields of an object are values.

  Each call is recorded with the store before the runner built the event (\<open>oc_before\<close>), the
  reference handed over (\<open>oc_ref\<close>), the store and the rest of the world in which the handler
  was called (\<open>oc_objects\<close>, \<open>oc_rest\<close>), what the \<open>await\<close> gave (\<open>oc_outcome\<close>) and the store
  the handler left (\<open>oc_after\<close>).
\<close>

record ('e, 'u) ObjCall =
  oc_hook :: "('e list \<times> 'u) HookRegistration"
  oc_before :: "'e list"
  oc_ref :: Ref
  oc_objects :: "'e list"
  oc_rest :: 'u
  oc_outcome :: "JsError + HookResult option"
  oc_after :: "'e list"

record ('e, 'u) ObjState =
  objects :: "'e list"
  rest :: 'u
  obj_calls :: "('e, 'u) ObjCall list"

definition obj_start :: "'e list \<Rightarrow> 'u \<Rightarrow> ('e, 'u) ObjState" where
  "obj_start st u = \<lparr>objects = st, rest = u, obj_calls = []\<rparr>"

text \<open>\<open>{ ...event, field: current }\<close>, with \<open>override\<close> the replacement of the field.\<close>

definition Object_spread :: "Ref \<Rightarrow> ('e \<Rightarrow> 'e) \<Rightarrow> 'e list \<Rightarrow> Ref \<times> 'e list" where
  "Object_spread event override st = (length st, st @ [override (st ! event)])"

text \<open>\<open>await hook.handler({ ...event, field: current })\<close>\<close>

definition await_handler_obj ::
  "('e list \<times> 'u) HookRegistration \<Rightarrow> ('e \<Rightarrow> HookEvent) \<Rightarrow> Ref \<Rightarrow> ('e \<Rightarrow> 'e) \<Rightarrow>
   (HookResult option, ('e, 'u) ObjState) Task" where
  "await_handler_obj hook wrap event override s =
     (case Object_spread event override (objects s) of
        (view, st1) \<Rightarrow>
          (case handler hook (wrap (st1 ! view)) (st1, rest s) of
             (ret, st2, u2) \<Rightarrow>
               (await ret,
                \<lparr>objects = st2, rest = u2,
                 obj_calls = obj_calls s @
                   [\<lparr>oc_hook = hook, oc_before = objects s, oc_ref = view, oc_objects = st1,
                     oc_rest = rest s, oc_outcome = await ret, oc_after = st2\<rparr>]\<rparr>)))"

fun tools_filter_loop_obj ::
  "(SystemPromptToolsFilterEvent list \<times> 'u) HookRegistration list \<Rightarrow> Ref \<Rightarrow> ToolEntry list \<Rightarrow>
   (ToolEntry list, (SystemPromptToolsFilterEvent, 'u) ObjState) Task" where
  "tools_filter_loop_obj [] event current = resolve current"
| "tools_filter_loop_obj (hook # hooks) event current =
     bind_async
       (try_catch
          (bind_async
             (await_handler_obj hook ToolsFilterEvent event (\<lambda>e. e\<lparr>tools_tf := current\<rparr>))
             (\<lambda>result. resolve
                (case result of
                   None \<Rightarrow> current
                 | Some r \<Rightarrow> (case tools r of None \<Rightarrow> current | Some ts \<Rightarrow> ts))))
          (resolve current))
       (\<lambda>current'. tools_filter_loop_obj hooks event current')"

definition runSystemPromptToolsFilter_obj ::
  "(SystemPromptToolsFilterEvent list \<times> 'u) HookRegistration list \<Rightarrow> Ref \<Rightarrow>
   (HookResult, (SystemPromptToolsFilterEvent, 'u) ObjState) Task" where
  "runSystemPromptToolsFilter_obj registrations event s =
     bind_async
       (tools_filter_loop_obj (getHooks registrations system_prompt_tools_filter) event
          (tools_tf (objects s ! event)))
       (\<lambda>current. resolve (empty_object\<lparr>tools := Some current\<rparr>)) s"

fun skills_filter_loop_obj ::
  "(SystemPromptSkillsFilterEvent list \<times> 'u) HookRegistration list \<Rightarrow> Ref \<Rightarrow> string \<Rightarrow>
   (string, (SystemPromptSkillsFilterEvent, 'u) ObjState) Task" where
  "skills_filter_loop_obj [] event current = resolve current"
| "skills_filter_loop_obj (hook # hooks) event current =
     bind_async
       (try_catch
          (bind_async
             (await_handler_obj hook SkillsFilterEvent event
                (\<lambda>e. e\<lparr>skillsPrompt_sf := current\<rparr>))
             (\<lambda>result. resolve
                (case result of
                   None \<Rightarrow> current
                 | Some r \<Rightarrow> (case skillsPrompt r of None \<Rightarrow> current | Some p \<Rightarrow> p))))
          (resolve current))
       (\<lambda>current'. skills_filter_loop_obj hooks event current')"

definition runSystemPromptSkillsFilter_obj ::
  "(SystemPromptSkillsFilterEvent list \<times> 'u) HookRegistration list \<Rightarrow> Ref \<Rightarrow>
   (HookResult, (SystemPromptSkillsFilterEvent, 'u) ObjState) Task" where
  "runSystemPromptSkillsFilter_obj registrations event s =
     bind_async
       (skills_filter_loop_obj (getHooks registrations system_prompt_skills_filter) event
          (skillsPrompt_sf (objects s ! event)))
       (\<lambda>current. resolve (empty_object\<lparr>skillsPrompt := Some current\<rparr>)) s"

fun bootstrap_before_loop_obj ::
  "(WorkspaceBootstrapBeforeEvent list \<times> 'u) HookRegistration list \<Rightarrow> Ref \<Rightarrow>
   BootstrapFile list \<times> bool \<Rightarrow>
   (BootstrapFile list \<times> bool, (WorkspaceBootstrapBeforeEvent, 'u) ObjState) Task" where
  "bootstrap_before_loop_obj [] event (currentFiles, skp) = resolve (currentFiles, skp)"
| "bootstrap_before_loop_obj (hook # hooks) event (currentFiles, skp) =
     bind_async
       (try_catch
          (bind_async
             (await_handler_obj hook BootstrapBeforeEvent event
                (\<lambda>e. e\<lparr>files_bb := currentFiles\<rparr>))
             (\<lambda>result. resolve
                (case result of
                   None \<Rightarrow> (currentFiles, skp)
                 | Some r \<Rightarrow>
                     ((case files r of None \<Rightarrow> currentFiles | Some fs \<Rightarrow> fs),
                      (if skip r = Some True then True else skp)))))
          (resolve (currentFiles, skp)))
       (\<lambda>locals. bootstrap_before_loop_obj hooks event locals)"

definition runWorkspaceBootstrapBefore_obj ::
  "(WorkspaceBootstrapBeforeEvent list \<times> 'u) HookRegistration list \<Rightarrow> Ref \<Rightarrow>
   (HookResult, (WorkspaceBootstrapBeforeEvent, 'u) ObjState) Task" where
  "runWorkspaceBootstrapBefore_obj registrations event s =
     bind_async
       (bootstrap_before_loop_obj (getHooks registrations workspace_bootstrap_before) event
          (files_bb (objects s ! event), False))
       (\<lambda>(currentFiles, skp).
          resolve (empty_object\<lparr>files := Some currentFiles, skip := Some skp\<rparr>)) s"

text \<open>A run over the store \<open>st\<close> with nothing recorded yet: its result and its final state.\<close>

definition obj_result_of :: "('a, ('e, 'u) ObjState) Task \<Rightarrow> 'e list \<Rightarrow> 'u \<Rightarrow> JsError + 'a" where
  "obj_result_of m st u = fst (m (obj_start st u))"

definition obj_final_of ::
  "('a, ('e, 'u) ObjState) Task \<Rightarrow> 'e list \<Rightarrow> 'u \<Rightarrow> ('e, 'u) ObjState" where
  "obj_final_of m st u = snd (m (obj_start st u))"

text \<open>
  The calls \<open>cs\<close> of a run that began in store \<open>st\<close> and ended in store \<open>final\<close>, in the words
  of the specification: the runner builds, for every call, a fresh event view from the running
  \<open>current\<close> and the caller's event. For the call number \<open>i\<close>: the runner starts from the store
  the call before it left (from \<open>st\<close> for the first); the reference it hands over is one that no
  object of that store has; the store in which the handler is called is that store with one
  object added, every object it held being as it was; the added object is the caller's event,
  as it then is, with the mutable field replaced by \<open>current\<close>, the fold of \<open>nxt\<close> over the
  outcomes of the calls before \<open>i\<close>; the handler is called with the object behind that
  reference, and leaves the store \<open>oc_after\<close>. The run ends in the store the last call left.
\<close>

definition handed_fresh_views ::
  "Ref \<Rightarrow> ('e \<Rightarrow> HookEvent) \<Rightarrow> ('c \<Rightarrow> 'e \<Rightarrow> 'e) \<Rightarrow> ('c \<Rightarrow> Outcome \<Rightarrow> 'c) \<Rightarrow> 'c \<Rightarrow>
   'e list \<Rightarrow> ('e, 'u) ObjCall list \<Rightarrow> 'e list \<Rightarrow> bool" where
  "handed_fresh_views event wrap view nxt cur st cs final \<longleftrightarrow>
     (\<forall>i<length cs.
        oc_before (cs ! i) = (if i = 0 then st else oc_after (cs ! (i - 1))) \<and>
        oc_ref (cs ! i) = length (oc_before (cs ! i)) \<and>
        oc_objects (cs ! i) =
          oc_before (cs ! i) @
            [view (foldl nxt cur (map oc_outcome (take i cs))) (oc_before (cs ! i) ! event)] \<and>
        oc_outcome (cs ! i) =
          await (fst (handler (oc_hook (cs ! i)) (wrap (oc_objects (cs ! i) ! oc_ref (cs ! i)))
                   (oc_objects (cs ! i), oc_rest (cs ! i)))) \<and>
        oc_after (cs ! i) =
          fst (snd (handler (oc_hook (cs ! i)) (wrap (oc_objects (cs ! i) ! oc_ref (cs ! i)))
                 (oc_objects (cs ! i), oc_rest (cs ! i))))) \<and>
     final = (if cs = [] then st else oc_after (last cs))"

text \<open>
  The event is immutable by contract: in the calls \<open>cs\<close>, no handler removed an object from
  the store or changed the object behind \<open>event\<close>.
\<close>

definition handlers_kept :: "Ref \<Rightarrow> ('e, 'u) ObjCall list \<Rightarrow> bool" where
  "handlers_kept event cs =
     list_all (\<lambda>c. length (oc_objects c) \<le> length (oc_after c) \<and>
                    oc_after c ! event = oc_objects c ! event) cs"

text \<open>
  The same as one recursion over the calls, with the rest of the world threaded through: the
  form in which the loops are shown to run.
\<close>

fun obj_run ::
  "Ref \<Rightarrow> ('e \<Rightarrow> HookEvent) \<Rightarrow> ('c \<Rightarrow> 'e \<Rightarrow> 'e) \<Rightarrow> ('c \<Rightarrow> Outcome \<Rightarrow> 'c) \<Rightarrow> 'c \<Rightarrow>
   'e list \<times> 'u \<Rightarrow> ('e, 'u) ObjCall list \<Rightarrow> 'e list \<times> 'u \<Rightarrow> bool" where
  "obj_run event wrap view nxt cur w [] w' = (w' = w)"
| "obj_run event wrap view nxt cur w (c # cs) w' =
     (oc_before c = fst w \<and>
      oc_ref c = length (fst w) \<and>
      oc_objects c = fst w @ [view cur (fst w ! event)] \<and>
      oc_rest c = snd w \<and>
      oc_outcome c =
        await (fst (handler (oc_hook c) (wrap (view cur (fst w ! event))) (oc_objects c, snd w))) \<and>
      oc_after c =
        fst (snd (handler (oc_hook c) (wrap (view cur (fst w ! event))) (oc_objects c, snd w))) \<and>
      obj_run event wrap view nxt (nxt cur (oc_outcome c))
        (snd (handler (oc_hook c) (wrap (view cur (fst w ! event))) (oc_objects c, snd w)))
        cs w')"

subsection \<open>Handlers and registrations of the test suite\<close>

text \<open>
  The handlers and events of the module's tests (superpack-hooks.test.ts), and a few variations
  of them, for the concrete runs below. The world of these handlers is a log of strings, to
  which a handler pushes its tag, as the handlers of the test "chains multiple handlers in
  priority order" do. \<open>boom\<close> is the tests' \<open>async () => { throw new Error("boom") }\<close>,
  \<open>boom_sync\<close> the same without \<open>async\<close>.
\<close>

type_synonym Log = "string list"

definition logged :: "string \<Rightarrow> HandlerReturn \<Rightarrow> Log Handler" where
  "logged tag ret event log = (ret, log @ [tag])"

definition boom :: "Log Handler" where
  "boom event log = (Rejects (JsError ''boom''), log)"

definition remove_exec :: "Log Handler" where
  "remove_exec event log =
     (case event of
        ToolsFilterEvent e \<Rightarrow>
          (Resolves (Some (empty_object\<lparr>tools :=
             Some (filter (\<lambda>t. name_tool t \<noteq> ''exec'') (tools_tf e))\<rparr>)), log @ [''A''])
      | _ \<Rightarrow> (Rejects (JsError ''TypeError''), log @ [''A'']))"

definition add_custom :: "Log Handler" where
  "add_custom event log =
     (case event of
        ToolsFilterEvent e \<Rightarrow>
          (Resolves (Some (empty_object\<lparr>tools :=
             Some (tools_tf e @ [\<lparr>name_tool = ''custom'', description = Some ''added by B''\<rparr>])\<rparr>)),
           log @ [''B''])
      | _ \<Rightarrow> (Rejects (JsError ''TypeError''), log @ [''B'']))"

definition test_tools_event :: SystemPromptToolsFilterEvent where
  "test_tools_event =
     \<lparr>agentId_tf = ''main'', promptMode_tf = ''full'',
      tools_tf = [\<lparr>name_tool = ''exec'', description = Some ''Run shell commands''\<rparr>,
                  \<lparr>name_tool = ''read'', description = Some ''Read files''\<rparr>]\<rparr>"

definition tools_registrations :: "Log HookRegistration list" where
  "tools_registrations =
     [\<lparr>hookName = system_prompt_tools_filter, handler = add_custom, priority = Some 5\<rparr>,
      \<lparr>hookName = system_prompt_footer, handler = logged ''F'' (Returns None), priority = Some 7\<rparr>,
      \<lparr>hookName = system_prompt_tools_filter, handler = boom, priority = Some 8\<rparr>,
      \<lparr>hookName = system_prompt_tools_filter, handler = remove_exec, priority = Some 10\<rparr>]"

definition test_validate_event :: SubagentPromptValidateEvent where
  "test_validate_event =
     \<lparr>agentId_sv = ''sub-1'', parentAgentId = ''main'', systemPrompt = ''whatever'',
      sessionKey = ''session-123''\<rparr>"

definition validate_registrations :: "Log HookRegistration list" where
  "validate_registrations =
     [\<lparr>hookName = subagent_prompt_validate,
       handler = logged ''C'' (Resolves (Some (empty_object\<lparr>block := Some True,
                    reason := Some ''C also blocked it''\<rparr>))),
       priority = Some 1\<rparr>,
      \<lparr>hookName = subagent_prompt_validate,
       handler = logged ''A'' (Resolves (Some (empty_object\<lparr>block := Some False\<rparr>))),
       priority = Some 10\<rparr>,
      \<lparr>hookName = subagent_prompt_validate, handler = boom, priority = Some 7\<rparr>,
      \<lparr>hookName = subagent_prompt_validate,
       handler = logged ''B'' (Resolves (Some (empty_object\<lparr>block := Some True,
                    reason := Some ''B blocked it''\<rparr>))),
       priority = Some 5\<rparr>]"

definition boom_sync :: "Log Handler" where
  "boom_sync event log = (Throws (JsError ''boom''), log)"

definition test_skills_event :: SystemPromptSkillsFilterEvent where
  "test_skills_event =
     \<lparr>agentId_sf = ''main'', promptMode_sf = ''full'',
      skillsPrompt_sf = ''<available_skills><skill>foo</skill></available_skills>''\<rparr>"

definition test_footer_event :: SystemPromptFooterEvent where
  "test_footer_event =
     \<lparr>agentId_ft = ''main'', promptMode_ft = ''full'', currentPrompt = ''base''\<rparr>"

definition test_before_event :: WorkspaceBootstrapBeforeEvent where
  "test_before_event =
     \<lparr>workspaceDir_bb = ''/home/user/.openclaw/workspace'',
      files_bb = [\<lparr>name_file = ''AGENTS.md'', content = ''# Agents''\<rparr>,
                  \<lparr>name_file = ''SOUL.md'', content = ''# Soul''\<rparr>,
                  \<lparr>name_file = ''TOOLS.md'', content = ''# Tools''\<rparr>],
      isNewWorkspace = True\<rparr>"

definition test_after_event :: WorkspaceBootstrapAfterEvent where
  "test_after_event =
     \<lparr>workspaceDir_ba = ''/tmp/ws'', filesWritten = [''AGENTS.md''],
      filesSkipped = [''TOOLS.md'', ''SOUL.md'']\<rparr>"

definition remove_tools_md :: "Log Handler" where
  "remove_tools_md event log =
     (case event of
        BootstrapBeforeEvent e \<Rightarrow>
          (Resolves (Some (empty_object\<lparr>
             files := Some (filter (\<lambda>f. name_file f \<noteq> ''TOOLS.md'') (files_bb e)),
             skip := Some False\<rparr>)), log @ [''remove''])
      | _ \<Rightarrow> (Rejects (JsError ''TypeError''), log @ [''remove'']))"

definition skip_bootstrap :: "Log Handler" where
  "skip_bootstrap event log =
     (case event of
        BootstrapBeforeEvent e \<Rightarrow>
          (Resolves (Some (empty_object\<lparr>files := Some (files_bb e), skip := Some True\<rparr>)),
           log @ [''skip''])
      | _ \<Rightarrow> (Rejects (JsError ''TypeError''), log @ [''skip'']))"

definition modifying_registrations :: "Log HookRegistration list" where
  "modifying_registrations =
     tools_registrations @
     [\<lparr>hookName = system_prompt_skills_filter,
       handler = logged ''strip'' (Resolves (Some (empty_object\<lparr>skillsPrompt := Some ''''\<rparr>))),
       priority = Some 0\<rparr>,
      \<lparr>hookName = system_prompt_skills_filter, handler = logged ''nothing'' (Returns None),
       priority = Some 3\<rparr>,
      \<lparr>hookName = workspace_bootstrap_before, handler = remove_tools_md, priority = Some 5\<rparr>,
      \<lparr>hookName = workspace_bootstrap_before, handler = boom_sync, priority = Some 7\<rparr>,
      \<lparr>hookName = workspace_bootstrap_before, handler = skip_bootstrap, priority = Some 10\<rparr>]"

definition footer_registrations :: "Log HookRegistration list" where
  "footer_registrations =
     [\<lparr>hookName = system_prompt_footer,
       handler = logged ''B'' (Resolves (Some (empty_object\<lparr>append_ft := Some ''B''\<rparr>))),
       priority = Some 5\<rparr>,
      \<lparr>hookName = system_prompt_footer,
       handler = logged ''empty'' (Resolves (Some (empty_object\<lparr>append_ft := Some ''''\<rparr>))),
       priority = Some 6\<rparr>,
      \<lparr>hookName = system_prompt_footer, handler = boom, priority = Some 7\<rparr>,
      \<lparr>hookName = system_prompt_footer,
       handler = logged ''A'' (Resolves (Some (empty_object\<lparr>append_ft := Some ''A''\<rparr>))),
       priority = Some 10\<rparr>]"

definition after_registrations :: "Log HookRegistration list" where
  "after_registrations =
     [\<lparr>hookName = workspace_bootstrap_after, handler = logged ''A'' (Resolves None),
       priority = Some 0\<rparr>,
      \<lparr>hookName = workspace_bootstrap_after, handler = boom, priority = None\<rparr>,
      \<lparr>hookName = workspace_bootstrap_after, handler = logged ''B'' (Resolves None),
       priority = Some 0\<rparr>]"

definition failing_registrations :: "Log HookRegistration list" where
  "failing_registrations =
     [\<lparr>hookName = system_prompt_tools_filter, handler = boom, priority = Some 0\<rparr>,
      \<lparr>hookName = system_prompt_skills_filter, handler = boom_sync, priority = Some 0\<rparr>,
      \<lparr>hookName = system_prompt_footer, handler = boom, priority = Some 0\<rparr>,
      \<lparr>hookName = workspace_bootstrap_before, handler = boom_sync, priority = Some 0\<rparr>,
      \<lparr>hookName = workspace_bootstrap_after, handler = boom, priority = None\<rparr>,
      \<lparr>hookName = subagent_prompt_validate, handler = boom, priority = Some 0\<rparr>,
      \<lparr>hookName = subagent_prompt_validate, handler = boom_sync, priority = Some 1\<rparr>]"

text \<open>
  The same handlers over a store of event objects: \<open>on_store h\<close> is the handler \<open>h\<close> as a
  handler that leaves the store alone. \<open>scribble\<close> is a handler that assigns to a property of
  the object it is handed (the newest of the store) and returns nothing.
\<close>

definition on_store :: "'u Handler \<Rightarrow> ('e list \<times> 'u) Handler" where
  "on_store h event w = (case h event (snd w) of (ret, u) \<Rightarrow> (ret, fst w, u))"

definition store_registration :: "'u HookRegistration \<Rightarrow> ('e list \<times> 'u) HookRegistration" where
  "store_registration r =
     \<lparr>hookName = hookName r, handler = on_store (handler r), priority = priority r\<rparr>"

definition scribble :: "(SystemPromptToolsFilterEvent list \<times> Log) Handler" where
  "scribble event w =
     (Returns None,
      (fst w)[length (fst w) - 1 := (last (fst w))\<lparr>agentId_tf := ''scribbled''\<rparr>],
      snd w @ [''S''])"

definition tools_store_registrations ::
  "(SystemPromptToolsFilterEvent list \<times> Log) HookRegistration list" where
  "tools_store_registrations =
     map store_registration modifying_registrations @
     [\<lparr>hookName = system_prompt_tools_filter, handler = scribble, priority = Some 9\<rparr>]"

definition other_tools_event :: SystemPromptToolsFilterEvent where
  "other_tools_event = \<lparr>agentId_tf = ''other'', promptMode_tf = ''minimal'', tools_tf = []\<rparr>"

section \<open>Lemmas\<close>

text \<open>The definitions that a concrete run unfolds.\<close>

lemmas run_defs =
  result_of_def calls_of_def world_of_def start_def
  getHooks_def sortByPriority_def compare_priority_def priority_or_0_def
  bind_async_def try_catch_def await_handler_def resolve_def empty_object_def

lemmas runner_defs =
  runSystemPromptToolsFilter_def runSystemPromptSkillsFilter_def runSystemPromptFooter_def
  runWorkspaceBootstrapBefore_def runWorkspaceBootstrapAfter_def runSubagentPromptValidate_def
  bootstrap_after_task_def newline_def

subsection \<open>One guarded call, and the loops\<close>

lemma guarded_call:
  "try_catch (bind_async (await_handler hook e) (\<lambda>result. resolve (f result))) (resolve d) s =
     (Inr (case await (fst (handler hook e (world s))) of Inl err \<Rightarrow> d | Inr res \<Rightarrow> f res),
      \<lparr>world = snd (handler hook e (world s)),
       calls = calls s @ [\<lparr>call_hook = hook, call_event = e,
                           call_outcome = await (fst (handler hook e (world s)))\<rparr>]\<rparr>)"
  by (simp add: try_catch_def bind_async_def await_handler_def resolve_def
      split: prod.splits sum.splits)

lemma tools_step_value:
  "(case out of Inl err \<Rightarrow> cur
    | Inr res \<Rightarrow> (case res of None \<Rightarrow> cur
        | Some r \<Rightarrow> (case tools r of None \<Rightarrow> cur | Some ts \<Rightarrow> ts))) = spec_next_tools cur out"
  by (cases "(cur, out)" rule: spec_next_tools.cases) (auto split: option.splits)

lemma skills_step_value:
  "(case out of Inl err \<Rightarrow> cur
    | Inr res \<Rightarrow> (case res of None \<Rightarrow> cur
        | Some r \<Rightarrow> (case skillsPrompt r of None \<Rightarrow> cur | Some p \<Rightarrow> p))) = spec_next_skills cur out"
  by (cases "(cur, out)" rule: spec_next_skills.cases) (auto split: option.splits)

lemma before_step_value:
  "(case out of Inl err \<Rightarrow> (cf, sk)
    | Inr res \<Rightarrow> (case res of None \<Rightarrow> (cf, sk)
        | Some r \<Rightarrow> ((case files r of None \<Rightarrow> cf | Some fs \<Rightarrow> fs),
                      (if skip r = Some True then True else sk))))
   = (spec_next_files cf out, sk \<or> sets_skip out)"
  by (cases "(cf, out)" rule: spec_next_files.cases) (auto split: option.splits)

lemma footer_step_value:
  "(case out of Inl err \<Rightarrow> parts
    | Inr res \<Rightarrow> (case res of None \<Rightarrow> parts
        | Some r \<Rightarrow> (case append_ft r of None \<Rightarrow> parts
                      | Some a \<Rightarrow> if a \<noteq> [] then parts @ [a] else parts)))
   = parts @ fragment out"
  by (cases out rule: fragment.cases) (auto split: option.splits)

lemma validate_step_value:
  "(case out of Inl err \<Rightarrow> None
    | Inr res \<Rightarrow> (case res of None \<Rightarrow> None
        | Some r \<Rightarrow> if block r = Some True
                     then Some (empty_object\<lparr>block := Some True, reason := reason r\<rparr>)
                     else None))
   = (if blocks out then Some (empty_object\<lparr>block := Some True, reason := reason_of out\<rparr>)
      else None)"
  by (cases out rule: blocks.cases) (auto split: option.splits)

lemma tools_filter_loop_run:
  "\<exists>cs w'. tools_filter_loop hooks ev cur s =
       (Inr (foldl spec_next_tools cur (map call_outcome cs)), \<lparr>world = w', calls = calls s @ cs\<rparr>)
     \<and> map call_hook cs = hooks
     \<and> chained (\<lambda>c. ToolsFilterEvent (ev\<lparr>tools_tf := c\<rparr>)) spec_next_tools cur cs
     \<and> sequential_run (world s) cs w'"
proof (induction hooks arbitrary: cur s)
  case Nil
  show ?case
    by (rule exI [of _ "[]"], rule exI [of _ "world s"]) (simp add: resolve_def)
next
  case (Cons hook hooks)
  let ?e = "ToolsFilterEvent (ev\<lparr>tools_tf := cur\<rparr>)"
  let ?out = "await (fst (handler hook ?e (world s)))"
  let ?c = "\<lparr>call_hook = hook, call_event = ?e, call_outcome = ?out\<rparr>"
  let ?s1 = "\<lparr>world = snd (handler hook ?e (world s)), calls = calls s @ [?c]\<rparr>"
  from Cons.IH [of "spec_next_tools cur ?out" ?s1]
  obtain cs w' where run:
    "tools_filter_loop hooks ev (spec_next_tools cur ?out) ?s1 =
       (Inr (foldl spec_next_tools (spec_next_tools cur ?out) (map call_outcome cs)),
        \<lparr>world = w', calls = calls ?s1 @ cs\<rparr>)"
    and hs: "map call_hook cs = hooks"
    and ch: "chained (\<lambda>c. ToolsFilterEvent (ev\<lparr>tools_tf := c\<rparr>)) spec_next_tools
               (spec_next_tools cur ?out) cs"
    and sq: "sequential_run (world ?s1) cs w'"
    by blast
  have "tools_filter_loop (hook # hooks) ev cur s =
          tools_filter_loop hooks ev (spec_next_tools cur ?out) ?s1"
    by (simp add: guarded_call bind_async_def tools_step_value)
  with run hs ch sq show ?case
    by (intro exI [of _ "?c # cs"] exI [of _ w']) simp
qed

lemma skills_filter_loop_run:
  "\<exists>cs w'. skills_filter_loop hooks ev cur s =
       (Inr (foldl spec_next_skills cur (map call_outcome cs)), \<lparr>world = w', calls = calls s @ cs\<rparr>)
     \<and> map call_hook cs = hooks
     \<and> chained (\<lambda>c. SkillsFilterEvent (ev\<lparr>skillsPrompt_sf := c\<rparr>)) spec_next_skills cur cs
     \<and> sequential_run (world s) cs w'"
proof (induction hooks arbitrary: cur s)
  case Nil
  show ?case
    by (rule exI [of _ "[]"], rule exI [of _ "world s"]) (simp add: resolve_def)
next
  case (Cons hook hooks)
  let ?e = "SkillsFilterEvent (ev\<lparr>skillsPrompt_sf := cur\<rparr>)"
  let ?out = "await (fst (handler hook ?e (world s)))"
  let ?c = "\<lparr>call_hook = hook, call_event = ?e, call_outcome = ?out\<rparr>"
  let ?s1 = "\<lparr>world = snd (handler hook ?e (world s)), calls = calls s @ [?c]\<rparr>"
  from Cons.IH [of "spec_next_skills cur ?out" ?s1]
  obtain cs w' where run:
    "skills_filter_loop hooks ev (spec_next_skills cur ?out) ?s1 =
       (Inr (foldl spec_next_skills (spec_next_skills cur ?out) (map call_outcome cs)),
        \<lparr>world = w', calls = calls ?s1 @ cs\<rparr>)"
    and hs: "map call_hook cs = hooks"
    and ch: "chained (\<lambda>c. SkillsFilterEvent (ev\<lparr>skillsPrompt_sf := c\<rparr>)) spec_next_skills
               (spec_next_skills cur ?out) cs"
    and sq: "sequential_run (world ?s1) cs w'"
    by blast
  have "skills_filter_loop (hook # hooks) ev cur s =
          skills_filter_loop hooks ev (spec_next_skills cur ?out) ?s1"
    by (simp add: guarded_call bind_async_def skills_step_value)
  with run hs ch sq show ?case
    by (intro exI [of _ "?c # cs"] exI [of _ w']) simp
qed

lemma bootstrap_before_loop_run:
  "\<exists>cs w'. bootstrap_before_loop hooks ev (cf, sk) s =
       (Inr (foldl spec_next_files cf (map call_outcome cs),
             sk \<or> list_ex (\<lambda>c. sets_skip (call_outcome c)) cs),
        \<lparr>world = w', calls = calls s @ cs\<rparr>)
     \<and> map call_hook cs = hooks
     \<and> chained (\<lambda>c. BootstrapBeforeEvent (ev\<lparr>files_bb := c\<rparr>)) spec_next_files cf cs
     \<and> sequential_run (world s) cs w'"
proof (induction hooks arbitrary: cf sk s)
  case Nil
  show ?case
    by (rule exI [of _ "[]"], rule exI [of _ "world s"]) (simp add: resolve_def)
next
  case (Cons hook hooks)
  let ?e = "BootstrapBeforeEvent (ev\<lparr>files_bb := cf\<rparr>)"
  let ?out = "await (fst (handler hook ?e (world s)))"
  let ?c = "\<lparr>call_hook = hook, call_event = ?e, call_outcome = ?out\<rparr>"
  let ?s1 = "\<lparr>world = snd (handler hook ?e (world s)), calls = calls s @ [?c]\<rparr>"
  from Cons.IH [of "spec_next_files cf ?out" "sk \<or> sets_skip ?out" ?s1]
  obtain cs w' where run:
    "bootstrap_before_loop hooks ev (spec_next_files cf ?out, sk \<or> sets_skip ?out) ?s1 =
       (Inr (foldl spec_next_files (spec_next_files cf ?out) (map call_outcome cs),
             (sk \<or> sets_skip ?out) \<or> list_ex (\<lambda>c. sets_skip (call_outcome c)) cs),
        \<lparr>world = w', calls = calls ?s1 @ cs\<rparr>)"
    and hs: "map call_hook cs = hooks"
    and ch: "chained (\<lambda>c. BootstrapBeforeEvent (ev\<lparr>files_bb := c\<rparr>)) spec_next_files
               (spec_next_files cf ?out) cs"
    and sq: "sequential_run (world ?s1) cs w'"
    by blast
  have "bootstrap_before_loop (hook # hooks) ev (cf, sk) s =
          bootstrap_before_loop hooks ev (spec_next_files cf ?out, sk \<or> sets_skip ?out) ?s1"
    by (simp add: guarded_call bind_async_def before_step_value)
  with run hs ch sq show ?case
    by (intro exI [of _ "?c # cs"] exI [of _ w']) simp
qed

lemma footer_loop_run:
  "\<exists>cs w'. footer_loop hooks ev parts s =
       (Inr (parts @ concat (map (\<lambda>c. fragment (call_outcome c)) cs)),
        \<lparr>world = w', calls = calls s @ cs\<rparr>)
     \<and> map call_hook cs = hooks
     \<and> list_all (\<lambda>c. call_event c = FooterEvent ev) cs
     \<and> sequential_run (world s) cs w'"
proof (induction hooks arbitrary: parts s)
  case Nil
  show ?case
    by (rule exI [of _ "[]"], rule exI [of _ "world s"]) (simp add: resolve_def)
next
  case (Cons hook hooks)
  let ?e = "FooterEvent ev"
  let ?out = "await (fst (handler hook ?e (world s)))"
  let ?c = "\<lparr>call_hook = hook, call_event = ?e, call_outcome = ?out\<rparr>"
  let ?s1 = "\<lparr>world = snd (handler hook ?e (world s)), calls = calls s @ [?c]\<rparr>"
  from Cons.IH [of "parts @ fragment ?out" ?s1]
  obtain cs w' where run:
    "footer_loop hooks ev (parts @ fragment ?out) ?s1 =
       (Inr ((parts @ fragment ?out) @ concat (map (\<lambda>c. fragment (call_outcome c)) cs)),
        \<lparr>world = w', calls = calls ?s1 @ cs\<rparr>)"
    and hs: "map call_hook cs = hooks"
    and ev: "list_all (\<lambda>c. call_event c = FooterEvent ev) cs"
    and sq: "sequential_run (world ?s1) cs w'"
    by blast
  have "footer_loop (hook # hooks) ev parts s = footer_loop hooks ev (parts @ fragment ?out) ?s1"
    by (simp add: guarded_call bind_async_def footer_step_value)
  with run hs ev sq show ?case
    by (intro exI [of _ "?c # cs"] exI [of _ w']) simp
qed

lemma validate_loop_run:
  "\<exists>cs w' r. validate_loop hooks ev s = (Inr r, \<lparr>world = w', calls = calls s @ cs\<rparr>)
     \<and> prefix (map call_hook cs) hooks
     \<and> list_all (\<lambda>c. call_event c = ValidateEvent ev) cs
     \<and> sequential_run (world s) cs w'
     \<and> list_all (\<lambda>c. \<not> blocks (call_outcome c)) (butlast cs)
     \<and> (if cs \<noteq> [] \<and> blocks (call_outcome (last cs))
        then r = empty_object\<lparr>block := Some True, reason := reason_of (call_outcome (last cs))\<rparr>
        else r = empty_object\<lparr>block := Some False\<rparr> \<and> map call_hook cs = hooks)"
proof (induction hooks arbitrary: s)
  case Nil
  show ?case
    by (rule exI [of _ "[]"], rule exI [of _ "world s"]) (simp add: resolve_def)
next
  case (Cons hook hooks)
  let ?e = "ValidateEvent ev"
  let ?out = "await (fst (handler hook ?e (world s)))"
  let ?c = "\<lparr>call_hook = hook, call_event = ?e, call_outcome = ?out\<rparr>"
  let ?s1 = "\<lparr>world = snd (handler hook ?e (world s)), calls = calls s @ [?c]\<rparr>"
  show ?case
  proof (cases "blocks ?out")
    case True
    then have "validate_loop (hook # hooks) ev s =
        (Inr (empty_object\<lparr>block := Some True, reason := reason_of ?out\<rparr>), ?s1)"
      by (simp add: guarded_call bind_async_def validate_step_value resolve_def)
    with True show ?thesis
      by (intro exI [of _ "[?c]"] exI [of _ "world ?s1"]
          exI [of _ "empty_object\<lparr>block := Some True, reason := reason_of ?out\<rparr>"]) simp
  next
    case False
    from Cons.IH [of ?s1]
    obtain cs w' r where run:
      "validate_loop hooks ev ?s1 = (Inr r, \<lparr>world = w', calls = calls ?s1 @ cs\<rparr>)"
      and pre: "prefix (map call_hook cs) hooks"
      and evs: "list_all (\<lambda>c. call_event c = ValidateEvent ev) cs"
      and sq: "sequential_run (world ?s1) cs w'"
      and nb: "list_all (\<lambda>c. \<not> blocks (call_outcome c)) (butlast cs)"
      and res: "if cs \<noteq> [] \<and> blocks (call_outcome (last cs))
        then r = empty_object\<lparr>block := Some True, reason := reason_of (call_outcome (last cs))\<rparr>
        else r = empty_object\<lparr>block := Some False\<rparr> \<and> map call_hook cs = hooks"
      by blast
    from False have "validate_loop (hook # hooks) ev s = validate_loop hooks ev ?s1"
      by (simp add: guarded_call bind_async_def validate_step_value)
    with run have 1: "validate_loop (hook # hooks) ev s =
        (Inr r, \<lparr>world = w', calls = calls s @ ?c # cs\<rparr>)"
      by simp
    from pre have 2: "prefix (map call_hook (?c # cs)) (hook # hooks)" by simp
    from evs have 3: "list_all (\<lambda>c. call_event c = ValidateEvent ev) (?c # cs)" by simp
    from sq have 4: "sequential_run (world s) (?c # cs) w'" by simp
    from nb False have 5: "list_all (\<lambda>c. \<not> blocks (call_outcome c)) (butlast (?c # cs))"
      by simp
    from res False have 6: "if ?c # cs \<noteq> [] \<and> blocks (call_outcome (last (?c # cs)))
        then r = empty_object\<lparr>block := Some True,
                                reason := reason_of (call_outcome (last (?c # cs)))\<rparr>
        else r = empty_object\<lparr>block := Some False\<rparr> \<and> map call_hook (?c # cs) = hook # hooks"
      by (cases "cs = []") (simp_all split: if_splits)
    from 1 2 3 4 5 6 show ?thesis
      by (intro exI [of _ "?c # cs"] exI [of _ w'] exI [of _ r] conjI)
  qed
qed

lemma bootstrap_after_task_run:
  "bootstrap_after_task hook ev s =
     (Inr (),
      \<lparr>world = snd (handler hook (BootstrapAfterEvent ev) (world s)),
       calls = calls s @ [\<lparr>call_hook = hook, call_event = BootstrapAfterEvent ev,
          call_outcome = await (fst (handler hook (BootstrapAfterEvent ev) (world s)))\<rparr>]\<rparr>)"
  unfolding bootstrap_after_task_def
  by (simp add: guarded_call split: sum.splits)

lemma promise_all_tasks_run:
  "\<exists>cs w'. promise_all (map (\<lambda>hook. bootstrap_after_task hook ev) hooks) s =
       (Inr (map (\<lambda>hook. ()) hooks), \<lparr>world = w', calls = calls s @ cs\<rparr>)
     \<and> map call_hook cs = hooks
     \<and> list_all (\<lambda>c. call_event c = BootstrapAfterEvent ev) cs
     \<and> sequential_run (world s) cs w'"
proof (induction hooks arbitrary: s)
  case Nil
  show ?case
    by (rule exI [of _ "[]"], rule exI [of _ "world s"]) simp
next
  case (Cons hook hooks)
  let ?e = "BootstrapAfterEvent ev"
  let ?out = "await (fst (handler hook ?e (world s)))"
  let ?c = "\<lparr>call_hook = hook, call_event = ?e, call_outcome = ?out\<rparr>"
  let ?s1 = "\<lparr>world = snd (handler hook ?e (world s)), calls = calls s @ [?c]\<rparr>"
  from Cons.IH [of ?s1]
  obtain cs w' where run:
    "promise_all (map (\<lambda>hook. bootstrap_after_task hook ev) hooks) ?s1 =
       (Inr (map (\<lambda>hook. ()) hooks), \<lparr>world = w', calls = calls ?s1 @ cs\<rparr>)"
    and hs: "map call_hook cs = hooks"
    and evs: "list_all (\<lambda>c. call_event c = BootstrapAfterEvent ev) cs"
    and sq: "sequential_run (world ?s1) cs w'"
    by blast
  from run have "promise_all (map (\<lambda>hook. bootstrap_after_task hook ev) (hook # hooks)) s =
      (Inr (map (\<lambda>hook. ()) (hook # hooks)), \<lparr>world = w', calls = calls s @ ?c # cs\<rparr>)"
    by (simp add: bootstrap_after_task_run)
  with hs evs sq show ?case
    by (intro exI [of _ "?c # cs"] exI [of _ w']) simp
qed

lemma chained_nth:
  "chained view nxt cur cs \<Longrightarrow> i < length cs \<Longrightarrow>
     call_event (cs ! i) = view (foldl nxt cur (map call_outcome (take i cs)))"
proof (induction cs arbitrary: cur i)
  case Nil
  then show ?case by simp
next
  case (Cons c cs)
  then show ?case by (cases i) simp_all
qed

subsection \<open>The arrays in the store\<close>

lemma insert_cmp_insort:
  "insert_cmp compare_priority (a :: 'w HookRegistration) bs = insort_key (\<lambda>r. - priority_or_0 r) a bs"
  by (induction bs) (auto simp: compare_priority_def)

lemma sortByPriority_sort_key:
  "sortByPriority hooks = sort_key (\<lambda>r. - priority_or_0 r) hooks"
  unfolding sortByPriority_def
  by (induction hooks) (simp_all add: insert_cmp_insort)

lemma getHooks_ref_run:
  assumes "registrations < length st"
  shows "getHooks_ref registrations name st =
     (Suc (length st),
      st @ [filter (\<lambda>r. hookName r = name) (st ! registrations),
            getHooks (st ! registrations) name])"
  using assms
  by (simp add: getHooks_ref_def Array_filter_def new_array_def sortByPriority_ref_def
      Array_spread_def Array_sort_def getHooks_def sortByPriority_def nth_append
      list_update_append)

lemma after_invocations_frame:
  "registrations < length st \<Longrightarrow>
     \<exists>more. after_invocations registrations names st = st @ more"
proof (induction names arbitrary: st)
  case Nil
  then show ?case by simp
next
  case (Cons name names)
  let ?st1 = "st @ [filter (\<lambda>r. hookName r = name) (st ! registrations),
                    getHooks (st ! registrations) name]"
  from Cons.prems have "registrations < length ?st1" by simp
  from Cons.IH [OF this] obtain more where
    "after_invocations registrations names ?st1 = ?st1 @ more" by blast
  with Cons.prems show ?case
    by (simp add: getHooks_ref_run)
qed

lemma hooks_seen_eq:
  "registrations < length st \<Longrightarrow>
     hooks_seen registrations name st = getHooks (st ! registrations) name"
  by (simp add: hooks_seen_def getHooks_ref_run nth_append)

subsection \<open>The six invocation functions, run from a fresh record of calls\<close>

lemma start_simps [simp]: "world (start w) = w" "calls (start w) = []"
  by (simp_all add: start_def)

lemma runSystemPromptToolsFilter_facts:
  fixes regs :: "'w HookRegistration list" and ev
  defines "m \<equiv> runSystemPromptToolsFilter regs ev"
  shows "result_of m w = Inr (empty_object\<lparr>tools :=
           Some (foldl spec_next_tools (tools_tf ev) (map call_outcome (calls_of m w)))\<rparr>)"
    and "map call_hook (calls_of m w) = getHooks regs system_prompt_tools_filter"
    and "chained (\<lambda>c. ToolsFilterEvent (ev\<lparr>tools_tf := c\<rparr>)) spec_next_tools (tools_tf ev)
           (calls_of m w)"
    and "sequential_run w (calls_of m w) (world_of m w)"
proof -
  from tools_filter_loop_run
    [of "getHooks regs system_prompt_tools_filter" ev "tools_tf ev" "start w"]
  obtain cs w' where
    "tools_filter_loop (getHooks regs system_prompt_tools_filter) ev (tools_tf ev) (start w) =
       (Inr (foldl spec_next_tools (tools_tf ev) (map call_outcome cs)),
        \<lparr>world = w', calls = cs\<rparr>)"
    and props: "map call_hook cs = getHooks regs system_prompt_tools_filter"
      "chained (\<lambda>c. ToolsFilterEvent (ev\<lparr>tools_tf := c\<rparr>)) spec_next_tools (tools_tf ev) cs"
      "sequential_run w cs w'"
    by auto
  then have run: "m (start w) =
      (Inr (empty_object\<lparr>tools := Some (foldl spec_next_tools (tools_tf ev) (map call_outcome cs))\<rparr>),
       \<lparr>world = w', calls = cs\<rparr>)"
    by (simp add: m_def runSystemPromptToolsFilter_def bind_async_def resolve_def)
  from run show "result_of m w = Inr (empty_object\<lparr>tools :=
           Some (foldl spec_next_tools (tools_tf ev) (map call_outcome (calls_of m w)))\<rparr>)"
    by (simp add: result_of_def calls_of_def)
  from run props show "map call_hook (calls_of m w) = getHooks regs system_prompt_tools_filter"
    and "chained (\<lambda>c. ToolsFilterEvent (ev\<lparr>tools_tf := c\<rparr>)) spec_next_tools (tools_tf ev)
           (calls_of m w)"
    and "sequential_run w (calls_of m w) (world_of m w)"
    by (simp_all add: calls_of_def world_of_def)
qed

lemma runSystemPromptSkillsFilter_facts:
  fixes regs :: "'w HookRegistration list" and ev
  defines "m \<equiv> runSystemPromptSkillsFilter regs ev"
  shows "result_of m w = Inr (empty_object\<lparr>skillsPrompt :=
           Some (foldl spec_next_skills (skillsPrompt_sf ev) (map call_outcome (calls_of m w)))\<rparr>)"
    and "map call_hook (calls_of m w) = getHooks regs system_prompt_skills_filter"
    and "chained (\<lambda>c. SkillsFilterEvent (ev\<lparr>skillsPrompt_sf := c\<rparr>)) spec_next_skills
           (skillsPrompt_sf ev) (calls_of m w)"
    and "sequential_run w (calls_of m w) (world_of m w)"
proof -
  from skills_filter_loop_run
    [of "getHooks regs system_prompt_skills_filter" ev "skillsPrompt_sf ev" "start w"]
  obtain cs w' where
    "skills_filter_loop (getHooks regs system_prompt_skills_filter) ev (skillsPrompt_sf ev)
       (start w) =
       (Inr (foldl spec_next_skills (skillsPrompt_sf ev) (map call_outcome cs)),
        \<lparr>world = w', calls = cs\<rparr>)"
    and props: "map call_hook cs = getHooks regs system_prompt_skills_filter"
      "chained (\<lambda>c. SkillsFilterEvent (ev\<lparr>skillsPrompt_sf := c\<rparr>)) spec_next_skills
         (skillsPrompt_sf ev) cs"
      "sequential_run w cs w'"
    by auto
  then have run: "m (start w) =
      (Inr (empty_object\<lparr>skillsPrompt :=
              Some (foldl spec_next_skills (skillsPrompt_sf ev) (map call_outcome cs))\<rparr>),
       \<lparr>world = w', calls = cs\<rparr>)"
    by (simp add: m_def runSystemPromptSkillsFilter_def bind_async_def resolve_def)
  from run show "result_of m w = Inr (empty_object\<lparr>skillsPrompt :=
           Some (foldl spec_next_skills (skillsPrompt_sf ev) (map call_outcome (calls_of m w)))\<rparr>)"
    by (simp add: result_of_def calls_of_def)
  from run props show "map call_hook (calls_of m w) = getHooks regs system_prompt_skills_filter"
    and "chained (\<lambda>c. SkillsFilterEvent (ev\<lparr>skillsPrompt_sf := c\<rparr>)) spec_next_skills
           (skillsPrompt_sf ev) (calls_of m w)"
    and "sequential_run w (calls_of m w) (world_of m w)"
    by (simp_all add: calls_of_def world_of_def)
qed

lemma runWorkspaceBootstrapBefore_facts:
  fixes regs :: "'w HookRegistration list" and ev
  defines "m \<equiv> runWorkspaceBootstrapBefore regs ev"
  shows "result_of m w = Inr (empty_object\<lparr>
           files := Some (foldl spec_next_files (files_bb ev) (map call_outcome (calls_of m w))),
           skip := Some (list_ex (\<lambda>c. sets_skip (call_outcome c)) (calls_of m w))\<rparr>)"
    and "map call_hook (calls_of m w) = getHooks regs workspace_bootstrap_before"
    and "chained (\<lambda>c. BootstrapBeforeEvent (ev\<lparr>files_bb := c\<rparr>)) spec_next_files
           (files_bb ev) (calls_of m w)"
    and "sequential_run w (calls_of m w) (world_of m w)"
proof -
  from bootstrap_before_loop_run
    [of "getHooks regs workspace_bootstrap_before" ev "files_bb ev" False "start w"]
  obtain cs w' where
    "bootstrap_before_loop (getHooks regs workspace_bootstrap_before) ev (files_bb ev, False)
       (start w) =
       (Inr (foldl spec_next_files (files_bb ev) (map call_outcome cs),
             False \<or> list_ex (\<lambda>c. sets_skip (call_outcome c)) cs),
        \<lparr>world = w', calls = cs\<rparr>)"
    and props: "map call_hook cs = getHooks regs workspace_bootstrap_before"
      "chained (\<lambda>c. BootstrapBeforeEvent (ev\<lparr>files_bb := c\<rparr>)) spec_next_files
         (files_bb ev) cs"
      "sequential_run w cs w'"
    by auto
  then have run: "m (start w) =
      (Inr (empty_object\<lparr>
              files := Some (foldl spec_next_files (files_bb ev) (map call_outcome cs)),
              skip := Some (list_ex (\<lambda>c. sets_skip (call_outcome c)) cs)\<rparr>),
       \<lparr>world = w', calls = cs\<rparr>)"
    by (simp add: m_def runWorkspaceBootstrapBefore_def bind_async_def resolve_def)
  from run show "result_of m w = Inr (empty_object\<lparr>
           files := Some (foldl spec_next_files (files_bb ev) (map call_outcome (calls_of m w))),
           skip := Some (list_ex (\<lambda>c. sets_skip (call_outcome c)) (calls_of m w))\<rparr>)"
    by (simp add: result_of_def calls_of_def)
  from run props show "map call_hook (calls_of m w) = getHooks regs workspace_bootstrap_before"
    and "chained (\<lambda>c. BootstrapBeforeEvent (ev\<lparr>files_bb := c\<rparr>)) spec_next_files
           (files_bb ev) (calls_of m w)"
    and "sequential_run w (calls_of m w) (world_of m w)"
    by (simp_all add: calls_of_def world_of_def)
qed

lemma runSystemPromptFooter_facts:
  fixes regs :: "'w HookRegistration list" and ev
  defines "m \<equiv> runSystemPromptFooter regs ev"
  shows "result_of m w = Inr (empty_object\<lparr>append_ft :=
           Some (join newline (concat (map (\<lambda>c. fragment (call_outcome c)) (calls_of m w))))\<rparr>)"
    and "map call_hook (calls_of m w) = getHooks regs system_prompt_footer"
    and "list_all (\<lambda>c. call_event c = FooterEvent ev) (calls_of m w)"
    and "sequential_run w (calls_of m w) (world_of m w)"
proof -
  from footer_loop_run [of "getHooks regs system_prompt_footer" ev "[]" "start w"]
  obtain cs w' where
    "footer_loop (getHooks regs system_prompt_footer) ev [] (start w) =
       (Inr ([] @ concat (map (\<lambda>c. fragment (call_outcome c)) cs)), \<lparr>world = w', calls = cs\<rparr>)"
    and props: "map call_hook cs = getHooks regs system_prompt_footer"
      "list_all (\<lambda>c. call_event c = FooterEvent ev) cs"
      "sequential_run w cs w'"
    by auto
  then have run: "m (start w) =
      (Inr (empty_object\<lparr>append_ft :=
              Some (join newline (concat (map (\<lambda>c. fragment (call_outcome c)) cs)))\<rparr>),
       \<lparr>world = w', calls = cs\<rparr>)"
    by (simp add: m_def runSystemPromptFooter_def bind_async_def resolve_def)
  from run show "result_of m w = Inr (empty_object\<lparr>append_ft :=
           Some (join newline (concat (map (\<lambda>c. fragment (call_outcome c)) (calls_of m w))))\<rparr>)"
    by (simp add: result_of_def calls_of_def)
  from run props show "map call_hook (calls_of m w) = getHooks regs system_prompt_footer"
    and "list_all (\<lambda>c. call_event c = FooterEvent ev) (calls_of m w)"
    and "sequential_run w (calls_of m w) (world_of m w)"
    by (simp_all add: calls_of_def world_of_def)
qed

lemma runWorkspaceBootstrapAfter_facts:
  fixes regs :: "'w HookRegistration list" and ev
  defines "m \<equiv> runWorkspaceBootstrapAfter regs ev"
  shows "result_of m w = Inr ()"
    and "map call_hook (calls_of m w) = getHooks regs workspace_bootstrap_after"
    and "list_all (\<lambda>c. call_event c = BootstrapAfterEvent ev) (calls_of m w)"
proof -
  from promise_all_tasks_run [of ev "getHooks regs workspace_bootstrap_after" "start w"]
  obtain cs w' where
    "promise_all (map (\<lambda>hook. bootstrap_after_task hook ev)
        (getHooks regs workspace_bootstrap_after)) (start w) =
       (Inr (map (\<lambda>hook. ()) (getHooks regs workspace_bootstrap_after)),
        \<lparr>world = w', calls = cs\<rparr>)"
    and props: "map call_hook cs = getHooks regs workspace_bootstrap_after"
      "list_all (\<lambda>c. call_event c = BootstrapAfterEvent ev) cs"
      "sequential_run w cs w'"
    by auto
  then have run: "m (start w) = (Inr (), \<lparr>world = w', calls = cs\<rparr>)"
    by (simp add: m_def runWorkspaceBootstrapAfter_def bind_async_def resolve_def)
  from run show "result_of m w = Inr ()"
    by (simp add: result_of_def)
  from run props show "map call_hook (calls_of m w) = getHooks regs workspace_bootstrap_after"
    and "list_all (\<lambda>c. call_event c = BootstrapAfterEvent ev) (calls_of m w)"
    by (simp_all add: calls_of_def)
qed

lemma runSubagentPromptValidate_facts:
  fixes regs :: "'w HookRegistration list" and ev
  defines "m \<equiv> runSubagentPromptValidate regs ev"
  shows "prefix (map call_hook (calls_of m w)) (getHooks regs subagent_prompt_validate)"
    and "list_all (\<lambda>c. call_event c = ValidateEvent ev) (calls_of m w)"
    and "sequential_run w (calls_of m w) (world_of m w)"
    and "list_all (\<lambda>c. \<not> blocks (call_outcome c)) (butlast (calls_of m w))"
    and "if calls_of m w \<noteq> [] \<and> blocks (call_outcome (last (calls_of m w)))
         then result_of m w = Inr (empty_object\<lparr>block := Some True,
                reason := reason_of (call_outcome (last (calls_of m w)))\<rparr>)
         else result_of m w = Inr (empty_object\<lparr>block := Some False\<rparr>)
            \<and> map call_hook (calls_of m w) = getHooks regs subagent_prompt_validate"
proof -
  from validate_loop_run [of "getHooks regs subagent_prompt_validate" ev "start w"]
  obtain cs w' r where
    run: "m (start w) = (Inr r, \<lparr>world = w', calls = cs\<rparr>)"
    and props: "prefix (map call_hook cs) (getHooks regs subagent_prompt_validate)"
      "list_all (\<lambda>c. call_event c = ValidateEvent ev) cs"
      "sequential_run w cs w'"
      "list_all (\<lambda>c. \<not> blocks (call_outcome c)) (butlast cs)"
      "if cs \<noteq> [] \<and> blocks (call_outcome (last cs))
        then r = empty_object\<lparr>block := Some True, reason := reason_of (call_outcome (last cs))\<rparr>
        else r = empty_object\<lparr>block := Some False\<rparr>
           \<and> map call_hook cs = getHooks regs subagent_prompt_validate"
    unfolding m_def runSubagentPromptValidate_def by auto
  from run props show
    "prefix (map call_hook (calls_of m w)) (getHooks regs subagent_prompt_validate)"
    and "list_all (\<lambda>c. call_event c = ValidateEvent ev) (calls_of m w)"
    and "sequential_run w (calls_of m w) (world_of m w)"
    and "list_all (\<lambda>c. \<not> blocks (call_outcome c)) (butlast (calls_of m w))"
    by (simp_all add: calls_of_def world_of_def)
  from run props(5) show "if calls_of m w \<noteq> [] \<and> blocks (call_outcome (last (calls_of m w)))
         then result_of m w = Inr (empty_object\<lparr>block := Some True,
                reason := reason_of (call_outcome (last (calls_of m w)))\<rparr>)
         else result_of m w = Inr (empty_object\<lparr>block := Some False\<rparr>)
            \<and> map call_hook (calls_of m w) = getHooks regs subagent_prompt_validate"
    by (simp add: calls_of_def result_of_def)
qed

subsection \<open>The order of getHooks\<close>

lemma mset_sortByPriority: "mset (sortByPriority hooks) = mset hooks"
  by (simp add: sortByPriority_sort_key)

lemma descending_sortByPriority:
  "sorted_wrt (\<lambda>a b. priority_or_0 b \<le> priority_or_0 a) (sortByPriority hooks)"
proof -
  have "sorted (map (\<lambda>r. - priority_or_0 r) (sortByPriority hooks))"
    by (simp add: sortByPriority_sort_key)
  then show ?thesis
    by (simp add: sorted_map sorted_wrt_iff_nth_less)
qed

lemma stable_sortByPriority:
  "filter (\<lambda>r. priority_or_0 r = p) (sortByPriority hooks) = filter (\<lambda>r. priority_or_0 r = p) hooks"
proof -
  have "filter (\<lambda>r. - priority_or_0 r = - p) (sort_key (\<lambda>r. - priority_or_0 r) hooks)
      = filter (\<lambda>r. - priority_or_0 r = - p) hooks"
    by (rule sort_key_stable)
  then show ?thesis
    by (simp add: sortByPriority_sort_key)
qed

lemma sortByPriority_unique:
  fixes hooks :: "'w HookRegistration list"
  assumes perm: "mset ys = mset hooks"
    and desc: "sorted_wrt (\<lambda>a b. priority_or_0 b \<le> priority_or_0 a) ys"
    and stable: "\<And>p. filter (\<lambda>r. priority_or_0 r = p) ys = filter (\<lambda>r. priority_or_0 r = p) hooks"
  shows "sortByPriority hooks = ys"
proof -
  have "sorted (map (\<lambda>r. - priority_or_0 r) ys)"
    using desc by (simp add: sorted_map sorted_wrt_iff_nth_less)
  moreover have "filter (\<lambda>x. - priority_or_0 k = - priority_or_0 x) ys
      = filter (\<lambda>x. - priority_or_0 k = - priority_or_0 x) hooks" for k :: "'w HookRegistration"
    using stable [of "priority_or_0 k"] by (simp add: eq_commute)
  ultimately have "sort_key (\<lambda>r. - priority_or_0 r) hooks = ys"
    using perm by (intro properties_for_sort_key) auto
  then show ?thesis
    by (simp add: sortByPriority_sort_key)
qed

lemma getHooks_no_match:
  "\<forall>r\<in>set regs. hookName r \<noteq> name \<Longrightarrow> getHooks regs name = []"
  by (simp add: getHooks_def sortByPriority_def filter_empty_conv)

lemma hasHooks_iff: "hasHooks regs name \<longleftrightarrow> (\<exists>r\<in>set regs. hookName r = name)"
  by (simp add: hasHooks_def list_ex_iff)

subsection \<open>Runs in which every call fails\<close>

lemma foldl_spec_next_tools_failed:
  "list_all isl outs \<Longrightarrow> foldl spec_next_tools cur outs = cur"
  by (induction outs arbitrary: cur) (auto simp: isl_def)

lemma foldl_spec_next_skills_failed:
  "list_all isl outs \<Longrightarrow> foldl spec_next_skills cur outs = cur"
  by (induction outs arbitrary: cur) (auto simp: isl_def)

lemma foldl_spec_next_files_failed:
  "list_all isl outs \<Longrightarrow> foldl spec_next_files cur outs = cur"
  by (induction outs arbitrary: cur) (auto simp: isl_def)

lemma no_fragment_failed:
  "list_all (\<lambda>c. isl (call_outcome c)) cs \<Longrightarrow>
     concat (map (\<lambda>c. fragment (call_outcome c)) cs) = []"
  by (induction cs) (auto simp: isl_def)

lemma no_skip_failed:
  "list_all (\<lambda>c. isl (call_outcome c)) cs \<Longrightarrow>
     \<not> list_ex (\<lambda>c. sets_skip (call_outcome c)) cs"
  by (induction cs) (auto simp: isl_def)

lemma no_block_failed:
  assumes "list_all (\<lambda>c. isl (call_outcome c)) cs"
  shows "\<not> (cs \<noteq> [] \<and> blocks (call_outcome (last cs)))"
proof
  assume a: "cs \<noteq> [] \<and> blocks (call_outcome (last cs))"
  then have "last cs \<in> set cs" by simp
  with assms have "isl (call_outcome (last cs))" by (simp add: list_all_iff)
  with a show False by (auto simp: isl_def)
qed

lemma list_all_outcomes: "list_all isl (map call_outcome cs) = list_all (\<lambda>c. isl (call_outcome c)) cs"
  by (simp add: list_all_iff)

subsection \<open>The event objects in the store\<close>

lemma guarded_call_obj:
  "try_catch (bind_async (await_handler_obj hook wrap event override)
       (\<lambda>result. resolve (f result))) (resolve d) s =
     (Inr (case await (fst (handler hook (wrap (override (objects s ! event)))
              (objects s @ [override (objects s ! event)], rest s))) of
             Inl err \<Rightarrow> d | Inr res \<Rightarrow> f res),
      \<lparr>objects = fst (snd (handler hook (wrap (override (objects s ! event)))
              (objects s @ [override (objects s ! event)], rest s))),
       rest = snd (snd (handler hook (wrap (override (objects s ! event)))
              (objects s @ [override (objects s ! event)], rest s))),
       obj_calls = obj_calls s @
         [\<lparr>oc_hook = hook, oc_before = objects s, oc_ref = length (objects s),
           oc_objects = objects s @ [override (objects s ! event)], oc_rest = rest s,
           oc_outcome = await (fst (handler hook (wrap (override (objects s ! event)))
              (objects s @ [override (objects s ! event)], rest s))),
           oc_after = fst (snd (handler hook (wrap (override (objects s ! event)))
              (objects s @ [override (objects s ! event)], rest s)))\<rparr>]\<rparr>)"
  by (simp add: try_catch_def bind_async_def await_handler_obj_def Object_spread_def resolve_def
      split: prod.splits sum.splits)

lemma tools_filter_loop_obj_run:
  "\<exists>cs w'. tools_filter_loop_obj hooks event cur s =
       (Inr (foldl spec_next_tools cur (map oc_outcome cs)),
        \<lparr>objects = fst w', rest = snd w', obj_calls = obj_calls s @ cs\<rparr>)
     \<and> map oc_hook cs = hooks
     \<and> obj_run event ToolsFilterEvent (\<lambda>c e. e\<lparr>tools_tf := c\<rparr>) spec_next_tools cur
          (objects s, rest s) cs w'"
proof (induction hooks arbitrary: cur s)
  case Nil
  show ?case
    by (rule exI [of _ "[]"], rule exI [of _ "(objects s, rest s)"]) (simp add: resolve_def)
next
  case (Cons hook hooks)
  let ?v = "(objects s ! event)\<lparr>tools_tf := cur\<rparr>"
  let ?st1 = "objects s @ [?v]"
  let ?h = "handler hook (ToolsFilterEvent ?v) (?st1, rest s)"
  let ?out = "await (fst ?h)"
  let ?c = "\<lparr>oc_hook = hook, oc_before = objects s, oc_ref = length (objects s),
             oc_objects = ?st1, oc_rest = rest s, oc_outcome = ?out,
             oc_after = fst (snd ?h)\<rparr>"
  let ?s1 = "\<lparr>objects = fst (snd ?h), rest = snd (snd ?h), obj_calls = obj_calls s @ [?c]\<rparr>"
  from Cons.IH [of "spec_next_tools cur ?out" ?s1]
  obtain cs w' where run:
    "tools_filter_loop_obj hooks event (spec_next_tools cur ?out) ?s1 =
       (Inr (foldl spec_next_tools (spec_next_tools cur ?out) (map oc_outcome cs)),
        \<lparr>objects = fst w', rest = snd w', obj_calls = obj_calls ?s1 @ cs\<rparr>)"
    and hs: "map oc_hook cs = hooks"
    and orun: "obj_run event ToolsFilterEvent (\<lambda>c e. e\<lparr>tools_tf := c\<rparr>) spec_next_tools
               (spec_next_tools cur ?out) (objects ?s1, rest ?s1) cs w'"
    by blast
  have "tools_filter_loop_obj (hook # hooks) event cur s =
          tools_filter_loop_obj hooks event (spec_next_tools cur ?out) ?s1"
    by (simp add: guarded_call_obj bind_async_def tools_step_value)
  with run hs orun show ?case
    by (intro exI [of _ "?c # cs"] exI [of _ w']) simp
qed

lemma skills_filter_loop_obj_run:
  "\<exists>cs w'. skills_filter_loop_obj hooks event cur s =
       (Inr (foldl spec_next_skills cur (map oc_outcome cs)),
        \<lparr>objects = fst w', rest = snd w', obj_calls = obj_calls s @ cs\<rparr>)
     \<and> map oc_hook cs = hooks
     \<and> obj_run event SkillsFilterEvent (\<lambda>c e. e\<lparr>skillsPrompt_sf := c\<rparr>) spec_next_skills cur
          (objects s, rest s) cs w'"
proof (induction hooks arbitrary: cur s)
  case Nil
  show ?case
    by (rule exI [of _ "[]"], rule exI [of _ "(objects s, rest s)"]) (simp add: resolve_def)
next
  case (Cons hook hooks)
  let ?v = "(objects s ! event)\<lparr>skillsPrompt_sf := cur\<rparr>"
  let ?st1 = "objects s @ [?v]"
  let ?h = "handler hook (SkillsFilterEvent ?v) (?st1, rest s)"
  let ?out = "await (fst ?h)"
  let ?c = "\<lparr>oc_hook = hook, oc_before = objects s, oc_ref = length (objects s),
             oc_objects = ?st1, oc_rest = rest s, oc_outcome = ?out,
             oc_after = fst (snd ?h)\<rparr>"
  let ?s1 = "\<lparr>objects = fst (snd ?h), rest = snd (snd ?h), obj_calls = obj_calls s @ [?c]\<rparr>"
  from Cons.IH [of "spec_next_skills cur ?out" ?s1]
  obtain cs w' where run:
    "skills_filter_loop_obj hooks event (spec_next_skills cur ?out) ?s1 =
       (Inr (foldl spec_next_skills (spec_next_skills cur ?out) (map oc_outcome cs)),
        \<lparr>objects = fst w', rest = snd w', obj_calls = obj_calls ?s1 @ cs\<rparr>)"
    and hs: "map oc_hook cs = hooks"
    and orun: "obj_run event SkillsFilterEvent (\<lambda>c e. e\<lparr>skillsPrompt_sf := c\<rparr>)
               spec_next_skills (spec_next_skills cur ?out) (objects ?s1, rest ?s1) cs w'"
    by blast
  have "skills_filter_loop_obj (hook # hooks) event cur s =
          skills_filter_loop_obj hooks event (spec_next_skills cur ?out) ?s1"
    by (simp add: guarded_call_obj bind_async_def skills_step_value)
  with run hs orun show ?case
    by (intro exI [of _ "?c # cs"] exI [of _ w']) simp
qed

lemma bootstrap_before_loop_obj_run:
  "\<exists>cs w'. bootstrap_before_loop_obj hooks event (cf, sk) s =
       (Inr (foldl spec_next_files cf (map oc_outcome cs),
             sk \<or> list_ex (\<lambda>c. sets_skip (oc_outcome c)) cs),
        \<lparr>objects = fst w', rest = snd w', obj_calls = obj_calls s @ cs\<rparr>)
     \<and> map oc_hook cs = hooks
     \<and> obj_run event BootstrapBeforeEvent (\<lambda>c e. e\<lparr>files_bb := c\<rparr>) spec_next_files cf
          (objects s, rest s) cs w'"
proof (induction hooks arbitrary: cf sk s)
  case Nil
  show ?case
    by (rule exI [of _ "[]"], rule exI [of _ "(objects s, rest s)"]) (simp add: resolve_def)
next
  case (Cons hook hooks)
  let ?v = "(objects s ! event)\<lparr>files_bb := cf\<rparr>"
  let ?st1 = "objects s @ [?v]"
  let ?h = "handler hook (BootstrapBeforeEvent ?v) (?st1, rest s)"
  let ?out = "await (fst ?h)"
  let ?c = "\<lparr>oc_hook = hook, oc_before = objects s, oc_ref = length (objects s),
             oc_objects = ?st1, oc_rest = rest s, oc_outcome = ?out,
             oc_after = fst (snd ?h)\<rparr>"
  let ?s1 = "\<lparr>objects = fst (snd ?h), rest = snd (snd ?h), obj_calls = obj_calls s @ [?c]\<rparr>"
  from Cons.IH [of "spec_next_files cf ?out" "sk \<or> sets_skip ?out" ?s1]
  obtain cs w' where run:
    "bootstrap_before_loop_obj hooks event (spec_next_files cf ?out, sk \<or> sets_skip ?out) ?s1 =
       (Inr (foldl spec_next_files (spec_next_files cf ?out) (map oc_outcome cs),
             (sk \<or> sets_skip ?out) \<or> list_ex (\<lambda>c. sets_skip (oc_outcome c)) cs),
        \<lparr>objects = fst w', rest = snd w', obj_calls = obj_calls ?s1 @ cs\<rparr>)"
    and hs: "map oc_hook cs = hooks"
    and orun: "obj_run event BootstrapBeforeEvent (\<lambda>c e. e\<lparr>files_bb := c\<rparr>)
               spec_next_files (spec_next_files cf ?out) (objects ?s1, rest ?s1) cs w'"
    by blast
  have "bootstrap_before_loop_obj (hook # hooks) event (cf, sk) s =
          bootstrap_before_loop_obj hooks event (spec_next_files cf ?out, sk \<or> sets_skip ?out) ?s1"
    by (simp add: guarded_call_obj bind_async_def before_step_value)
  with run hs orun show ?case
    by (intro exI [of _ "?c # cs"] exI [of _ w']) simp
qed

lemma obj_run_fresh_views:
  "obj_run event wrap view nxt cur w cs w' \<Longrightarrow>
     handed_fresh_views event wrap view nxt cur (fst w) cs (fst w')"
proof (induction cs arbitrary: cur w)
  case Nil
  then show ?case by (simp add: handed_fresh_views_def)
next
  case (Cons c cs)
  let ?v = "view cur (fst w ! event)"
  let ?h = "handler (oc_hook c) (wrap ?v) (oc_objects c, snd w)"
  from Cons.prems have c: "oc_before c = fst w" "oc_ref c = length (fst w)"
    "oc_objects c = fst w @ [?v]" "oc_rest c = snd w"
    "oc_outcome c = await (fst ?h)" "oc_after c = fst (snd ?h)"
    and rest: "obj_run event wrap view nxt (nxt cur (oc_outcome c)) (snd ?h) cs w'"
    unfolding obj_run.simps by blast+
  from c have handed: "oc_objects c ! oc_ref c = ?v" by simp
  from Cons.IH [OF rest]
  have ih: "handed_fresh_views event wrap view nxt (nxt cur (oc_outcome c)) (oc_after c) cs (fst w')"
    using c(6) by simp
  show ?case
    unfolding handed_fresh_views_def
  proof (intro conjI allI impI)
    fix i assume i: "i < length (c # cs)"
    show "oc_before ((c # cs) ! i) = (if i = 0 then fst w else oc_after ((c # cs) ! (i - 1)))"
    proof (cases i)
      case 0 with c show ?thesis by simp
    next
      case (Suc j)
      with i ih show ?thesis
        by (cases j) (auto simp: handed_fresh_views_def)
    qed
    show "oc_ref ((c # cs) ! i) = length (oc_before ((c # cs) ! i))"
    proof (cases i)
      case 0 with c show ?thesis by simp
    next
      case (Suc j)
      with i ih show ?thesis by (simp add: handed_fresh_views_def)
    qed
    show "oc_objects ((c # cs) ! i) =
        oc_before ((c # cs) ! i) @
          [view (foldl nxt cur (map oc_outcome (take i (c # cs)))) (oc_before ((c # cs) ! i) ! event)]"
    proof (cases i)
      case 0 with c show ?thesis by simp
    next
      case (Suc j)
      with i ih show ?thesis by (simp add: handed_fresh_views_def)
    qed
    show "oc_outcome ((c # cs) ! i) =
        await (fst (handler (oc_hook ((c # cs) ! i))
          (wrap (oc_objects ((c # cs) ! i) ! oc_ref ((c # cs) ! i)))
          (oc_objects ((c # cs) ! i), oc_rest ((c # cs) ! i))))"
    proof (cases i)
      case 0 with c handed show ?thesis by simp
    next
      case (Suc j)
      with i ih show ?thesis by (simp add: handed_fresh_views_def)
    qed
    show "oc_after ((c # cs) ! i) =
        fst (snd (handler (oc_hook ((c # cs) ! i))
          (wrap (oc_objects ((c # cs) ! i) ! oc_ref ((c # cs) ! i)))
          (oc_objects ((c # cs) ! i), oc_rest ((c # cs) ! i))))"
    proof (cases i)
      case 0 with c handed show ?thesis by simp
    next
      case (Suc j)
      with i ih show ?thesis by (simp add: handed_fresh_views_def)
    qed
  next
    from ih show "fst w' = (if c # cs = [] then fst w else oc_after (last (c # cs)))"
      by (simp add: handed_fresh_views_def)
  qed
qed

lemma obj_run_kept:
  "obj_run event wrap view nxt cur w cs w' \<Longrightarrow> event < length (fst w) \<Longrightarrow>
   handlers_kept event cs \<Longrightarrow>
     fst w' ! event = fst w ! event \<and> event < length (fst w') \<and>
     (\<forall>i<length cs.
        oc_before (cs ! i) ! event = fst w ! event \<and>
        oc_ref (cs ! i) \<noteq> event \<and>
        oc_objects (cs ! i) ! oc_ref (cs ! i) =
          view (foldl nxt cur (map oc_outcome (take i cs))) (fst w ! event))"
proof (induction cs arbitrary: cur w)
  case Nil
  then show ?case by simp
next
  case (Cons c cs)
  let ?v = "view cur (fst w ! event)"
  let ?h = "handler (oc_hook c) (wrap ?v) (oc_objects c, snd w)"
  from Cons.prems(1) have c: "oc_before c = fst w" "oc_ref c = length (fst w)"
    "oc_objects c = fst w @ [?v]" "oc_after c = fst (snd ?h)"
    and rest: "obj_run event wrap view nxt (nxt cur (oc_outcome c)) (snd ?h) cs w'"
    unfolding obj_run.simps by blast+
  from Cons.prems(3) have kept: "length (oc_objects c) \<le> length (oc_after c)"
    "oc_after c ! event = oc_objects c ! event" and keptcs: "handlers_kept event cs"
    by (simp_all add: handlers_kept_def)
  from c Cons.prems(2) have same: "oc_objects c ! event = fst w ! event"
    by (simp add: nth_append)
  from kept c Cons.prems(2) have valid: "event < length (fst (snd ?h))" by simp
  from kept same c have after: "fst (snd ?h) ! event = fst w ! event" by simp
  from Cons.IH [OF rest valid keptcs] after
  have ih: "fst w' ! event = fst w ! event" "event < length (fst w')"
    "\<forall>i<length cs.
        oc_before (cs ! i) ! event = fst w ! event \<and>
        oc_ref (cs ! i) \<noteq> event \<and>
        oc_objects (cs ! i) ! oc_ref (cs ! i) =
          view (foldl nxt (nxt cur (oc_outcome c)) (map oc_outcome (take i cs))) (fst w ! event)"
    by simp_all
  have "\<forall>i<length (c # cs).
        oc_before ((c # cs) ! i) ! event = fst w ! event \<and>
        oc_ref ((c # cs) ! i) \<noteq> event \<and>
        oc_objects ((c # cs) ! i) ! oc_ref ((c # cs) ! i) =
          view (foldl nxt cur (map oc_outcome (take i (c # cs)))) (fst w ! event)"
  proof (intro allI impI)
    fix i assume "i < length (c # cs)"
    then show "oc_before ((c # cs) ! i) ! event = fst w ! event \<and>
        oc_ref ((c # cs) ! i) \<noteq> event \<and>
        oc_objects ((c # cs) ! i) ! oc_ref ((c # cs) ! i) =
          view (foldl nxt cur (map oc_outcome (take i (c # cs)))) (fst w ! event)"
      using c Cons.prems(2) ih(3) by (cases i) auto
  qed
  with ih(1,2) show ?case by blast
qed

lemma obj_start_simps [simp]:
  "objects (obj_start st u) = st" "rest (obj_start st u) = u" "obj_calls (obj_start st u) = []"
  by (simp_all add: obj_start_def)

lemma runSystemPromptToolsFilter_obj_run:
  "\<exists>cs w'. runSystemPromptToolsFilter_obj regs event (obj_start st u) =
       (Inr (empty_object\<lparr>tools :=
          Some (foldl spec_next_tools (tools_tf (st ! event)) (map oc_outcome cs))\<rparr>),
        \<lparr>objects = fst w', rest = snd w', obj_calls = cs\<rparr>)
     \<and> map oc_hook cs = getHooks regs system_prompt_tools_filter
     \<and> obj_run event ToolsFilterEvent (\<lambda>c e. e\<lparr>tools_tf := c\<rparr>) spec_next_tools
          (tools_tf (st ! event)) (st, u) cs w'"
proof -
  from tools_filter_loop_obj_run
    [of "getHooks regs system_prompt_tools_filter" event "tools_tf (st ! event)" "obj_start st u"]
  obtain cs w' where
    "tools_filter_loop_obj (getHooks regs system_prompt_tools_filter) event
       (tools_tf (st ! event)) (obj_start st u) =
       (Inr (foldl spec_next_tools (tools_tf (st ! event)) (map oc_outcome cs)),
        \<lparr>objects = fst w', rest = snd w', obj_calls = cs\<rparr>)"
    and "map oc_hook cs = getHooks regs system_prompt_tools_filter"
    and "obj_run event ToolsFilterEvent (\<lambda>c e. e\<lparr>tools_tf := c\<rparr>) spec_next_tools
          (tools_tf (st ! event)) (st, u) cs w'"
    by auto
  then show ?thesis
    by (intro exI [of _ cs] exI [of _ w'])
      (simp add: runSystemPromptToolsFilter_obj_def bind_async_def resolve_def)
qed

lemma runSystemPromptSkillsFilter_obj_run:
  "\<exists>cs w'. runSystemPromptSkillsFilter_obj regs event (obj_start st u) =
       (Inr (empty_object\<lparr>skillsPrompt :=
          Some (foldl spec_next_skills (skillsPrompt_sf (st ! event)) (map oc_outcome cs))\<rparr>),
        \<lparr>objects = fst w', rest = snd w', obj_calls = cs\<rparr>)
     \<and> map oc_hook cs = getHooks regs system_prompt_skills_filter
     \<and> obj_run event SkillsFilterEvent (\<lambda>c e. e\<lparr>skillsPrompt_sf := c\<rparr>) spec_next_skills
          (skillsPrompt_sf (st ! event)) (st, u) cs w'"
proof -
  from skills_filter_loop_obj_run
    [of "getHooks regs system_prompt_skills_filter" event "skillsPrompt_sf (st ! event)"
      "obj_start st u"]
  obtain cs w' where
    "skills_filter_loop_obj (getHooks regs system_prompt_skills_filter) event
       (skillsPrompt_sf (st ! event)) (obj_start st u) =
       (Inr (foldl spec_next_skills (skillsPrompt_sf (st ! event)) (map oc_outcome cs)),
        \<lparr>objects = fst w', rest = snd w', obj_calls = cs\<rparr>)"
    and "map oc_hook cs = getHooks regs system_prompt_skills_filter"
    and "obj_run event SkillsFilterEvent (\<lambda>c e. e\<lparr>skillsPrompt_sf := c\<rparr>) spec_next_skills
          (skillsPrompt_sf (st ! event)) (st, u) cs w'"
    by auto
  then show ?thesis
    by (intro exI [of _ cs] exI [of _ w'])
      (simp add: runSystemPromptSkillsFilter_obj_def bind_async_def resolve_def)
qed

lemma runWorkspaceBootstrapBefore_obj_run:
  "\<exists>cs w'. runWorkspaceBootstrapBefore_obj regs event (obj_start st u) =
       (Inr (empty_object\<lparr>
          files := Some (foldl spec_next_files (files_bb (st ! event)) (map oc_outcome cs)),
          skip := Some (list_ex (\<lambda>c. sets_skip (oc_outcome c)) cs)\<rparr>),
        \<lparr>objects = fst w', rest = snd w', obj_calls = cs\<rparr>)
     \<and> map oc_hook cs = getHooks regs workspace_bootstrap_before
     \<and> obj_run event BootstrapBeforeEvent (\<lambda>c e. e\<lparr>files_bb := c\<rparr>) spec_next_files
          (files_bb (st ! event)) (st, u) cs w'"
proof -
  from bootstrap_before_loop_obj_run
    [of "getHooks regs workspace_bootstrap_before" event "files_bb (st ! event)" False
      "obj_start st u"]
  obtain cs w' where
    "bootstrap_before_loop_obj (getHooks regs workspace_bootstrap_before) event
       (files_bb (st ! event), False) (obj_start st u) =
       (Inr (foldl spec_next_files (files_bb (st ! event)) (map oc_outcome cs),
             False \<or> list_ex (\<lambda>c. sets_skip (oc_outcome c)) cs),
        \<lparr>objects = fst w', rest = snd w', obj_calls = cs\<rparr>)"
    and "map oc_hook cs = getHooks regs workspace_bootstrap_before"
    and "obj_run event BootstrapBeforeEvent (\<lambda>c e. e\<lparr>files_bb := c\<rparr>) spec_next_files
          (files_bb (st ! event)) (st, u) cs w'"
    by auto
  then show ?thesis
    by (intro exI [of _ cs] exI [of _ w'])
      (simp add: runWorkspaceBootstrapBefore_obj_def bind_async_def resolve_def)
qed

text \<open>The definitions that a concrete run over the store unfolds, and three such runs.\<close>

lemmas obj_defs =
  obj_final_of_def obj_result_of_def obj_start_def runSystemPromptToolsFilter_obj_def
  runSystemPromptSkillsFilter_obj_def runWorkspaceBootstrapBefore_obj_def
  await_handler_obj_def Object_spread_def handlers_kept_def

lemma store_runs:
  "(1::nat) < length [other_tools_event, test_tools_event]
   \<and> map oc_ref (obj_calls (obj_final_of
        (runSystemPromptToolsFilter_obj tools_store_registrations 1)
        [other_tools_event, test_tools_event] [])) = [2, 3, 4, 5]
   \<and> handlers_kept 1 (obj_calls (obj_final_of
        (runSystemPromptToolsFilter_obj tools_store_registrations 1)
        [other_tools_event, test_tools_event] []))
   \<and> objects (obj_final_of (runSystemPromptToolsFilter_obj tools_store_registrations 1)
        [other_tools_event, test_tools_event] [])
       = [other_tools_event, test_tools_event, test_tools_event,
          \<lparr>agentId_tf = ''scribbled'', promptMode_tf = ''full'',
           tools_tf = [\<lparr>name_tool = ''read'', description = Some ''Read files''\<rparr>]\<rparr>,
          \<lparr>agentId_tf = ''main'', promptMode_tf = ''full'',
           tools_tf = [\<lparr>name_tool = ''read'', description = Some ''Read files''\<rparr>]\<rparr>,
          \<lparr>agentId_tf = ''main'', promptMode_tf = ''full'',
           tools_tf = [\<lparr>name_tool = ''read'', description = Some ''Read files''\<rparr>]\<rparr>]
   \<and> oc_objects (obj_calls (obj_final_of
        (runSystemPromptToolsFilter_obj tools_store_registrations 1)
        [other_tools_event, test_tools_event] []) ! 1) ! 3
       = \<lparr>agentId_tf = ''main'', promptMode_tf = ''full'',
          tools_tf = [\<lparr>name_tool = ''read'', description = Some ''Read files''\<rparr>]\<rparr>
   \<and> rest (obj_final_of (runSystemPromptToolsFilter_obj tools_store_registrations 1)
        [other_tools_event, test_tools_event] []) = [''A'', ''S'', ''B'']
   \<and> obj_result_of (runSystemPromptToolsFilter_obj tools_store_registrations 1)
        [other_tools_event, test_tools_event] []
       = Inr (empty_object\<lparr>tools :=
            Some [\<lparr>name_tool = ''read'', description = Some ''Read files''\<rparr>,
                  \<lparr>name_tool = ''custom'', description = Some ''added by B''\<rparr>]\<rparr>)
   \<and> (0::nat) < length [test_skills_event]
   \<and> map oc_ref (obj_calls (obj_final_of
        (runSystemPromptSkillsFilter_obj (map store_registration modifying_registrations) 0)
        [test_skills_event] [])) = [1, 2]
   \<and> handlers_kept 0 (obj_calls (obj_final_of
        (runSystemPromptSkillsFilter_obj (map store_registration modifying_registrations) 0)
        [test_skills_event] []))
   \<and> objects (obj_final_of
        (runSystemPromptSkillsFilter_obj (map store_registration modifying_registrations) 0)
        [test_skills_event] []) = [test_skills_event, test_skills_event, test_skills_event]
   \<and> (0::nat) < length [test_before_event]
   \<and> map oc_ref (obj_calls (obj_final_of
        (runWorkspaceBootstrapBefore_obj (map store_registration modifying_registrations) 0)
        [test_before_event] [])) = [1, 2, 3]
   \<and> handlers_kept 0 (obj_calls (obj_final_of
        (runWorkspaceBootstrapBefore_obj (map store_registration modifying_registrations) 0)
        [test_before_event] []))
   \<and> objects (obj_final_of
        (runWorkspaceBootstrapBefore_obj (map store_registration modifying_registrations) 0)
        [test_before_event] [])
       = [test_before_event, test_before_event, test_before_event, test_before_event]
   \<and> obj_result_of
        (runWorkspaceBootstrapBefore_obj (map store_registration modifying_registrations) 0)
        [test_before_event] []
       = Inr (empty_object\<lparr>
            files := Some [\<lparr>name_file = ''AGENTS.md'', content = ''# Agents''\<rparr>,
                           \<lparr>name_file = ''SOUL.md'', content = ''# Soul''\<rparr>],
            skip := Some True\<rparr>)"
  by (simp add: obj_defs run_defs tools_store_registrations_def store_registration_def
      on_store_def scribble_def other_tools_event_def modifying_registrations_def
      tools_registrations_def test_tools_event_def test_skills_event_def test_before_event_def
      logged_def boom_def boom_sync_def remove_exec_def add_custom_def remove_tools_md_def
      skip_bootstrap_def)

subsection \<open>The store and the event as a value\<close>

text \<open>
  The functions over the store and the functions that take the event as a value are two
  readings of the same source text. For handlers that leave the store alone
  (\<open>store_registration\<close>), they select the same hooks in the same order, return the same
  result and leave the same world: the store adds the identity of the event objects and
  nothing else.
\<close>

lemma compare_priority_store:
  "compare_priority (store_registration a) (store_registration b) = compare_priority a b"
  by (simp add: compare_priority_def priority_or_0_def store_registration_def)

lemma insert_cmp_store:
  "insert_cmp compare_priority (store_registration a) (map store_registration bs) =
     map store_registration (insert_cmp compare_priority a bs)"
  by (induction bs) (simp_all add: compare_priority_store)

lemma array_sort_store:
  "array_sort compare_priority (map store_registration xs) =
     map store_registration (array_sort compare_priority xs)"
  by (induction xs) (simp_all add: insert_cmp_store)

lemma filter_store:
  "filter (\<lambda>r. hookName r = name) (map store_registration regs) =
     map store_registration (filter (\<lambda>r. hookName r = name) regs)"
  by (induction regs) (simp_all add: store_registration_def)

lemma getHooks_store:
  "getHooks (map store_registration regs) name = map store_registration (getHooks regs name)"
  by (simp add: getHooks_def sortByPriority_def filter_store array_sort_store)

lemma handler_store:
  "handler (store_registration hook) ev (st, u) =
     (fst (handler hook ev u), st, snd (handler hook ev u))"
  by (simp add: store_registration_def on_store_def split: prod.splits)

lemma tools_filter_loop_obj_store:
  "event < length (objects s) \<Longrightarrow> rest s = world s0 \<Longrightarrow>
     fst (tools_filter_loop_obj (map store_registration hooks) event cur s) =
       fst (tools_filter_loop hooks (objects s ! event) cur s0) \<and>
     rest (snd (tools_filter_loop_obj (map store_registration hooks) event cur s)) =
       world (snd (tools_filter_loop hooks (objects s ! event) cur s0))"
proof (induction hooks arbitrary: cur s s0)
  case Nil
  then show ?case by (simp add: resolve_def)
next
  case (Cons hook hooks)
  let ?e = "ToolsFilterEvent ((objects s ! event)\<lparr>tools_tf := cur\<rparr>)"
  let ?s0 = "\<lparr>world = snd (handler hook ?e (world s0)),
              calls = calls s0 @ [\<lparr>call_hook = hook, call_event = ?e,
                                  call_outcome = await (fst (handler hook ?e (world s0)))\<rparr>]\<rparr>"
  note IH = Cons.IH [where ?s0.0 = ?s0]
  from Cons.prems show ?case
    by (simp add: guarded_call guarded_call_obj bind_async_def nth_append handler_store IH)
qed

lemma skills_filter_loop_obj_store:
  "event < length (objects s) \<Longrightarrow> rest s = world s0 \<Longrightarrow>
     fst (skills_filter_loop_obj (map store_registration hooks) event cur s) =
       fst (skills_filter_loop hooks (objects s ! event) cur s0) \<and>
     rest (snd (skills_filter_loop_obj (map store_registration hooks) event cur s)) =
       world (snd (skills_filter_loop hooks (objects s ! event) cur s0))"
proof (induction hooks arbitrary: cur s s0)
  case Nil
  then show ?case by (simp add: resolve_def)
next
  case (Cons hook hooks)
  let ?e = "SkillsFilterEvent ((objects s ! event)\<lparr>skillsPrompt_sf := cur\<rparr>)"
  let ?s0 = "\<lparr>world = snd (handler hook ?e (world s0)),
              calls = calls s0 @ [\<lparr>call_hook = hook, call_event = ?e,
                                  call_outcome = await (fst (handler hook ?e (world s0)))\<rparr>]\<rparr>"
  note IH = Cons.IH [where ?s0.0 = ?s0]
  from Cons.prems show ?case
    by (simp add: guarded_call guarded_call_obj bind_async_def nth_append handler_store IH)
qed

lemma bootstrap_before_loop_obj_store:
  "event < length (objects s) \<Longrightarrow> rest s = world s0 \<Longrightarrow>
     fst (bootstrap_before_loop_obj (map store_registration hooks) event (cf, sk) s) =
       fst (bootstrap_before_loop hooks (objects s ! event) (cf, sk) s0) \<and>
     rest (snd (bootstrap_before_loop_obj (map store_registration hooks) event (cf, sk) s)) =
       world (snd (bootstrap_before_loop hooks (objects s ! event) (cf, sk) s0))"
proof (induction hooks arbitrary: cf sk s s0)
  case Nil
  then show ?case by (simp add: resolve_def)
next
  case (Cons hook hooks)
  let ?e = "BootstrapBeforeEvent ((objects s ! event)\<lparr>files_bb := cf\<rparr>)"
  let ?s0 = "\<lparr>world = snd (handler hook ?e (world s0)),
              calls = calls s0 @ [\<lparr>call_hook = hook, call_event = ?e,
                                  call_outcome = await (fst (handler hook ?e (world s0)))\<rparr>]\<rparr>"
  note IH = Cons.IH [where ?s0.0 = ?s0]
  from Cons.prems show ?case
    by (simp add: guarded_call guarded_call_obj bind_async_def nth_append before_step_value
        handler_store IH)
qed

lemma store_runs_agree:
  "tev < length tst \<Longrightarrow>
     obj_result_of (runSystemPromptToolsFilter_obj (map store_registration regs) tev) tst u =
       result_of (runSystemPromptToolsFilter regs (tst ! tev)) u \<and>
     rest (obj_final_of (runSystemPromptToolsFilter_obj (map store_registration regs) tev) tst u) =
       world_of (runSystemPromptToolsFilter regs (tst ! tev)) u"
  "sev < length sst \<Longrightarrow>
     obj_result_of (runSystemPromptSkillsFilter_obj (map store_registration regs) sev) sst u =
       result_of (runSystemPromptSkillsFilter regs (sst ! sev)) u \<and>
     rest (obj_final_of (runSystemPromptSkillsFilter_obj (map store_registration regs) sev) sst u) =
       world_of (runSystemPromptSkillsFilter regs (sst ! sev)) u"
  "bev < length bst \<Longrightarrow>
     obj_result_of (runWorkspaceBootstrapBefore_obj (map store_registration regs) bev) bst u =
       result_of (runWorkspaceBootstrapBefore regs (bst ! bev)) u \<and>
     rest (obj_final_of (runWorkspaceBootstrapBefore_obj (map store_registration regs) bev) bst u) =
       world_of (runWorkspaceBootstrapBefore regs (bst ! bev)) u"
proof -
  show "obj_result_of (runSystemPromptToolsFilter_obj (map store_registration regs) tev) tst u =
       result_of (runSystemPromptToolsFilter regs (tst ! tev)) u \<and>
     rest (obj_final_of (runSystemPromptToolsFilter_obj (map store_registration regs) tev) tst u) =
       world_of (runSystemPromptToolsFilter regs (tst ! tev)) u" if "tev < length tst"
    using that
      tools_filter_loop_obj_store [where s = "obj_start tst u" and ?s0.0 = "start u"
        and event = tev and hooks = "getHooks regs system_prompt_tools_filter"
        and cur = "tools_tf (tst ! tev)"]
    by (auto simp add: obj_result_of_def obj_final_of_def result_of_def world_of_def
        runSystemPromptToolsFilter_obj_def runSystemPromptToolsFilter_def getHooks_store
        bind_async_def obj_start_def start_def resolve_def split: prod.splits sum.splits)
  show "obj_result_of (runSystemPromptSkillsFilter_obj (map store_registration regs) sev) sst u =
       result_of (runSystemPromptSkillsFilter regs (sst ! sev)) u \<and>
     rest (obj_final_of (runSystemPromptSkillsFilter_obj (map store_registration regs) sev) sst u) =
       world_of (runSystemPromptSkillsFilter regs (sst ! sev)) u" if "sev < length sst"
    using that
      skills_filter_loop_obj_store [where s = "obj_start sst u" and ?s0.0 = "start u"
        and event = sev and hooks = "getHooks regs system_prompt_skills_filter"
        and cur = "skillsPrompt_sf (sst ! sev)"]
    by (auto simp add: obj_result_of_def obj_final_of_def result_of_def world_of_def
        runSystemPromptSkillsFilter_obj_def runSystemPromptSkillsFilter_def getHooks_store
        bind_async_def obj_start_def start_def resolve_def split: prod.splits sum.splits)
  show "obj_result_of (runWorkspaceBootstrapBefore_obj (map store_registration regs) bev) bst u =
       result_of (runWorkspaceBootstrapBefore regs (bst ! bev)) u \<and>
     rest (obj_final_of (runWorkspaceBootstrapBefore_obj (map store_registration regs) bev) bst u) =
       world_of (runWorkspaceBootstrapBefore regs (bst ! bev)) u" if "bev < length bst"
    using that
      bootstrap_before_loop_obj_store [where s = "obj_start bst u" and ?s0.0 = "start u"
        and event = bev and hooks = "getHooks regs workspace_bootstrap_before"
        and cf = "files_bb (bst ! bev)" and sk = False]
    by (auto simp add: obj_result_of_def obj_final_of_def result_of_def world_of_def
        runWorkspaceBootstrapBefore_obj_def runWorkspaceBootstrapBefore_def getHooks_store
        bind_async_def obj_start_def start_def resolve_def split: prod.splits sum.splits)
qed

section \<open>The claims\<close>

text \<open>
  Claim C1. For every registration list and every event, each of the six invocation functions
  returns normally, whatever its handlers do: the promise is fulfilled, never rejected, and
  the result has the shape of the hook's result type (\<open>{ tools }\<close>, \<open>{ skillsPrompt }\<close>,
  \<open>{ append }\<close>, \<open>{ files, skip }\<close>, nothing, \<open>{ block, reason? }\<close>). When every call
  of a handler made in the run threw or rejected, the result is the hook's identity: the
  event's own tools, skills prompt or files with \<open>skip\<close> false, the empty string, nothing,
  or \<open>{ block: false }\<close>. A call of a handler is taken to settle.
\<close>

theorem handler_faults_never_escape:
  fixes regs :: "'w HookRegistration list" and e1 e2 e3 e4 e5 e6
  defines "m1 \<equiv> runSystemPromptToolsFilter regs e1"
    and "m2 \<equiv> runSystemPromptSkillsFilter regs e2"
    and "m3 \<equiv> runSystemPromptFooter regs e3"
    and "m4 \<equiv> runWorkspaceBootstrapBefore regs e4"
    and "m5 \<equiv> runWorkspaceBootstrapAfter regs e5"
    and "m6 \<equiv> runSubagentPromptValidate regs e6"
  shows "(\<exists>ts. result_of m1 w = Inr (empty_object\<lparr>tools := Some ts\<rparr>))
    \<and> (\<exists>p. result_of m2 w = Inr (empty_object\<lparr>skillsPrompt := Some p\<rparr>))
    \<and> (\<exists>a. result_of m3 w = Inr (empty_object\<lparr>append_ft := Some a\<rparr>))
    \<and> (\<exists>fs sk. result_of m4 w = Inr (empty_object\<lparr>files := Some fs, skip := Some sk\<rparr>))
    \<and> result_of m5 w = Inr ()
    \<and> (\<exists>b rs. result_of m6 w = Inr (empty_object\<lparr>block := Some b, reason := rs\<rparr>))
    \<and> (list_all (\<lambda>c. isl (call_outcome c)) (calls_of m1 w) \<longrightarrow>
          result_of m1 w = Inr (empty_object\<lparr>tools := Some (tools_tf e1)\<rparr>))
    \<and> (list_all (\<lambda>c. isl (call_outcome c)) (calls_of m2 w) \<longrightarrow>
          result_of m2 w = Inr (empty_object\<lparr>skillsPrompt := Some (skillsPrompt_sf e2)\<rparr>))
    \<and> (list_all (\<lambda>c. isl (call_outcome c)) (calls_of m3 w) \<longrightarrow>
          result_of m3 w = Inr (empty_object\<lparr>append_ft := Some []\<rparr>))
    \<and> (list_all (\<lambda>c. isl (call_outcome c)) (calls_of m4 w) \<longrightarrow>
          result_of m4 w = Inr (empty_object\<lparr>files := Some (files_bb e4), skip := Some False\<rparr>))
    \<and> (list_all (\<lambda>c. isl (call_outcome c)) (calls_of m6 w) \<longrightarrow>
          result_of m6 w = Inr (empty_object\<lparr>block := Some False\<rparr>))"
proof -
  note f1 = runSystemPromptToolsFilter_facts(1) [where regs = regs and ev = e1 and w = w]
  note f2 = runSystemPromptSkillsFilter_facts(1) [where regs = regs and ev = e2 and w = w]
  note f3 = runSystemPromptFooter_facts(1) [where regs = regs and ev = e3 and w = w]
  note f4 = runWorkspaceBootstrapBefore_facts(1) [where regs = regs and ev = e4 and w = w]
  note f5 = runWorkspaceBootstrapAfter_facts(1) [where regs = regs and ev = e5 and w = w]
  note f6 = runSubagentPromptValidate_facts(5) [where regs = regs and ev = e6 and w = w]
  have s1: "\<exists>ts. result_of m1 w = Inr (empty_object\<lparr>tools := Some ts\<rparr>)"
    unfolding m1_def using f1 by blast
  have s2: "\<exists>p. result_of m2 w = Inr (empty_object\<lparr>skillsPrompt := Some p\<rparr>)"
    unfolding m2_def using f2 by blast
  have s3: "\<exists>a. result_of m3 w = Inr (empty_object\<lparr>append_ft := Some a\<rparr>)"
    unfolding m3_def using f3 by blast
  have s4: "\<exists>fs sk. result_of m4 w = Inr (empty_object\<lparr>files := Some fs, skip := Some sk\<rparr>)"
    unfolding m4_def using f4 by blast
  have s5: "result_of m5 w = Inr ()"
    unfolding m5_def using f5 .
  have s6: "\<exists>b rs. result_of m6 w = Inr (empty_object\<lparr>block := Some b, reason := rs\<rparr>)"
  proof (cases "calls_of m6 w \<noteq> [] \<and> blocks (call_outcome (last (calls_of m6 w)))")
    case True
    with f6 show ?thesis unfolding m6_def by auto
  next
    case False
    with f6 have "result_of m6 w =
        Inr (empty_object\<lparr>block := Some False, reason := None\<rparr>)"
      unfolding m6_def by (simp add: empty_object_def)
    then show ?thesis by blast
  qed
  have i1: "list_all (\<lambda>c. isl (call_outcome c)) (calls_of m1 w) \<longrightarrow>
          result_of m1 w = Inr (empty_object\<lparr>tools := Some (tools_tf e1)\<rparr>)"
    unfolding m1_def using f1
    by (simp add: foldl_spec_next_tools_failed list_all_outcomes)
  have i2: "list_all (\<lambda>c. isl (call_outcome c)) (calls_of m2 w) \<longrightarrow>
          result_of m2 w = Inr (empty_object\<lparr>skillsPrompt := Some (skillsPrompt_sf e2)\<rparr>)"
    unfolding m2_def using f2
    by (simp add: foldl_spec_next_skills_failed list_all_outcomes)
  have i3: "list_all (\<lambda>c. isl (call_outcome c)) (calls_of m3 w) \<longrightarrow>
          result_of m3 w = Inr (empty_object\<lparr>append_ft := Some []\<rparr>)"
    unfolding m3_def using f3
    by (simp add: no_fragment_failed)
  have i4: "list_all (\<lambda>c. isl (call_outcome c)) (calls_of m4 w) \<longrightarrow>
          result_of m4 w = Inr (empty_object\<lparr>files := Some (files_bb e4), skip := Some False\<rparr>)"
    unfolding m4_def using f4
    by (simp add: foldl_spec_next_files_failed list_all_outcomes no_skip_failed)
  have i6: "list_all (\<lambda>c. isl (call_outcome c)) (calls_of m6 w) \<longrightarrow>
          result_of m6 w = Inr (empty_object\<lparr>block := Some False\<rparr>)"
    unfolding m6_def using f6 no_block_failed [of "calls_of (runSubagentPromptValidate regs e6) w"]
    by auto
  from s1 s2 s3 s4 s5 s6 i1 i2 i3 i4 i6 show ?thesis
    by (intro conjI)
qed

text \<open>
  A registration list in which every handler throws (\<open>boom_sync\<close>) or rejects (\<open>boom\<close>):
  every hook has at least one such handler, each is called, and each function returns its
  identity.
\<close>

theorem handler_faults_never_escape_witness:
  "list_all (\<lambda>c. isl (call_outcome c))
      (calls_of (runSystemPromptToolsFilter failing_registrations test_tools_event) [])
   \<and> length (calls_of (runSystemPromptToolsFilter failing_registrations test_tools_event) []) = 1
   \<and> result_of (runSystemPromptToolsFilter failing_registrations test_tools_event) []
       = Inr (empty_object\<lparr>tools := Some (tools_tf test_tools_event)\<rparr>)
   \<and> map call_outcome
        (calls_of (runSystemPromptSkillsFilter failing_registrations test_skills_event) [])
       = [Inl (JsError ''boom'')]
   \<and> result_of (runSystemPromptSkillsFilter failing_registrations test_skills_event) []
       = Inr (empty_object\<lparr>skillsPrompt := Some (skillsPrompt_sf test_skills_event)\<rparr>)
   \<and> map call_outcome
        (calls_of (runSystemPromptFooter failing_registrations test_footer_event) [])
       = [Inl (JsError ''boom'')]
   \<and> result_of (runSystemPromptFooter failing_registrations test_footer_event) []
       = Inr (empty_object\<lparr>append_ft := Some ''''\<rparr>)
   \<and> map call_outcome
        (calls_of (runWorkspaceBootstrapBefore failing_registrations test_before_event) [])
       = [Inl (JsError ''boom'')]
   \<and> result_of (runWorkspaceBootstrapBefore failing_registrations test_before_event) []
       = Inr (empty_object\<lparr>files := Some (files_bb test_before_event), skip := Some False\<rparr>)
   \<and> map call_outcome
        (calls_of (runWorkspaceBootstrapAfter failing_registrations test_after_event) [])
       = [Inl (JsError ''boom'')]
   \<and> result_of (runWorkspaceBootstrapAfter failing_registrations test_after_event) [] = Inr ()
   \<and> map call_outcome
        (calls_of (runSubagentPromptValidate failing_registrations test_validate_event) [])
       = [Inl (JsError ''boom''), Inl (JsError ''boom'')]
   \<and> result_of (runSubagentPromptValidate failing_registrations test_validate_event) []
       = Inr (empty_object\<lparr>block := Some False\<rparr>)"
  using handler_faults_never_escape [where regs = failing_registrations
      and ?e1.0 = test_tools_event and ?e2.0 = test_skills_event and ?e3.0 = test_footer_event
      and ?e4.0 = test_before_event and ?e5.0 = test_after_event and ?e6.0 = test_validate_event
      and w = "[]"]
  by (simp add: run_defs failing_registrations_def test_tools_event_def test_skills_event_def
      test_footer_event_def test_before_event_def test_after_event_def test_validate_event_def
      boom_def boom_sync_def runSystemPromptToolsFilter_def runSystemPromptSkillsFilter_def
      runSystemPromptFooter_def runWorkspaceBootstrapBefore_def runWorkspaceBootstrapAfter_def
      runSubagentPromptValidate_def bootstrap_after_task_def newline_def)

text \<open>
  Claim C2. \<open>runSubagentPromptValidate\<close>, for any registration list and event: the handlers
  are tried one at a time in the order of \<open>getHooks\<close> (descending priority), each with the
  original event and each in the world the one before left; no call before the last one blocked
  (a handler that returns a non-blocking result, returns nothing, throws or rejects does not
  stop the scan); when the last call made blocks, the result is
  \<open>{ block: true, reason }\<close> with that handler's reason, and no handler after it is called;
  otherwise every matching handler was called and the result is \<open>{ block: false }\<close>, which
  includes the run in which no handler is registered and the run in which every handler
  throws.
\<close>

theorem first_block_wins:
  fixes regs :: "'w HookRegistration list" and ev
  defines "m \<equiv> runSubagentPromptValidate regs ev"
  shows "prefix (map call_hook (calls_of m w)) (getHooks regs subagent_prompt_validate)
    \<and> sequential_run w (calls_of m w) (world_of m w)
    \<and> list_all (\<lambda>c. call_event c = ValidateEvent ev) (calls_of m w)
    \<and> list_all (\<lambda>c. \<not> blocks (call_outcome c)) (butlast (calls_of m w))
    \<and> (if calls_of m w \<noteq> [] \<and> blocks (call_outcome (last (calls_of m w)))
       then result_of m w = Inr (empty_object\<lparr>block := Some True,
              reason := reason_of (call_outcome (last (calls_of m w)))\<rparr>)
       else result_of m w = Inr (empty_object\<lparr>block := Some False\<rparr>)
          \<and> map call_hook (calls_of m w) = getHooks regs subagent_prompt_validate)"
  unfolding m_def
  using runSubagentPromptValidate_facts [where regs = regs and ev = ev and w = w]
  by blast

text \<open>
  The run of the test "first block wins", with a rejecting handler added at priority 7 and the
  handlers registered out of order: A (10, does not block), boom (7), B (5, blocks), C (1,
  blocks). A, boom and B are called, in this order; C is not; the reason is B's. And the run
  of the test "handler errors do not block launch" with two failing handlers: both are called
  and the result is \<open>{ block: false }\<close>.
\<close>

theorem first_block_wins_witness:
  "map priority_or_0 (map call_hook
      (calls_of (runSubagentPromptValidate validate_registrations test_validate_event) []))
     = [10, 7, 5]
   \<and> map priority_or_0 (getHooks validate_registrations subagent_prompt_validate) = [10, 7, 5, 1]
   \<and> map call_outcome (butlast
      (calls_of (runSubagentPromptValidate validate_registrations test_validate_event) []))
     = [Inr (Some (empty_object\<lparr>block := Some False\<rparr>)), Inl (JsError ''boom'')]
   \<and> blocks (call_outcome (last
      (calls_of (runSubagentPromptValidate validate_registrations test_validate_event) [])))
   \<and> result_of (runSubagentPromptValidate validate_registrations test_validate_event) []
     = Inr (empty_object\<lparr>block := Some True, reason := Some ''B blocked it''\<rparr>)
   \<and> world_of (runSubagentPromptValidate validate_registrations test_validate_event) []
     = [''A'', ''B'']
   \<and> map call_outcome
        (calls_of (runSubagentPromptValidate failing_registrations test_validate_event) [])
     = [Inl (JsError ''boom''), Inl (JsError ''boom'')]
   \<and> map priority_or_0 (map call_hook
        (calls_of (runSubagentPromptValidate failing_registrations test_validate_event) []))
     = [1, 0]
   \<and> result_of (runSubagentPromptValidate failing_registrations test_validate_event) []
     = Inr (empty_object\<lparr>block := Some False\<rparr>)"
  using first_block_wins [of validate_registrations test_validate_event "[]"]
    first_block_wins [of failing_registrations test_validate_event "[]"]
  by (simp add: run_defs runSubagentPromptValidate_def validate_registrations_def
      failing_registrations_def test_validate_event_def logged_def boom_def boom_sync_def)

text \<open>
  Claim C3. For every hook name and registration list, \<open>getHooks\<close> gives exactly the
  registrations that match the name, in descending order of priority, and registrations of
  equal priority keep their order in the registration list (the sort is stable). This is the
  order in which the invocation functions call the handlers: the five functions without early
  return call all of them, \<open>runSubagentPromptValidate\<close> an initial segment.
\<close>

theorem getHooks_priority_order:
  fixes regs :: "'w HookRegistration list"
  shows "mset (getHooks regs name) = mset (filter (\<lambda>r. hookName r = name) regs)
    \<and> sorted_wrt (\<lambda>a b. priority_or_0 b \<le> priority_or_0 a) (getHooks regs name)
    \<and> (\<forall>p. filter (\<lambda>r. priority_or_0 r = p) (getHooks regs name)
           = filter (\<lambda>r. priority_or_0 r = p) (filter (\<lambda>r. hookName r = name) regs))
    \<and> map call_hook (calls_of (runSystemPromptToolsFilter regs e1) w)
        = getHooks regs system_prompt_tools_filter
    \<and> map call_hook (calls_of (runSystemPromptSkillsFilter regs e2) w)
        = getHooks regs system_prompt_skills_filter
    \<and> map call_hook (calls_of (runSystemPromptFooter regs e3) w)
        = getHooks regs system_prompt_footer
    \<and> map call_hook (calls_of (runWorkspaceBootstrapBefore regs e4) w)
        = getHooks regs workspace_bootstrap_before
    \<and> map call_hook (calls_of (runWorkspaceBootstrapAfter regs e5) w)
        = getHooks regs workspace_bootstrap_after
    \<and> prefix (map call_hook (calls_of (runSubagentPromptValidate regs e6) w))
        (getHooks regs subagent_prompt_validate)"
proof -
  have "mset (getHooks regs name) = mset (filter (\<lambda>r. hookName r = name) regs)"
    unfolding getHooks_def by (rule mset_sortByPriority)
  moreover have "sorted_wrt (\<lambda>a b. priority_or_0 b \<le> priority_or_0 a) (getHooks regs name)"
    unfolding getHooks_def by (rule descending_sortByPriority)
  moreover have "\<forall>p. filter (\<lambda>r. priority_or_0 r = p) (getHooks regs name)
           = filter (\<lambda>r. priority_or_0 r = p) (filter (\<lambda>r. hookName r = name) regs)"
    unfolding getHooks_def using stable_sortByPriority by blast
  ultimately show ?thesis
    using runSystemPromptToolsFilter_facts(2) [where regs = regs and ev = e1 and w = w]
      runSystemPromptSkillsFilter_facts(2) [where regs = regs and ev = e2 and w = w]
      runSystemPromptFooter_facts(2) [where regs = regs and ev = e3 and w = w]
      runWorkspaceBootstrapBefore_facts(2) [where regs = regs and ev = e4 and w = w]
      runWorkspaceBootstrapAfter_facts(2) [where regs = regs and ev = e5 and w = w]
      runSubagentPromptValidate_facts(1) [where regs = regs and ev = e6 and w = w]
    by blast
qed

text \<open>
  Three handlers registered for \<open>workspace_bootstrap_after\<close> at priority 0, as in the test
  "calls all handlers": they are called in the order of registration.
\<close>

theorem getHooks_priority_order_witness:
  "map priority_or_0 (getHooks modifying_registrations workspace_bootstrap_before) = [10, 7, 5]
   \<and> map handler (getHooks after_registrations workspace_bootstrap_after)
       = [logged ''A'' (Resolves None), boom, logged ''B'' (Resolves None)]
   \<and> map handler (map call_hook
        (calls_of (runWorkspaceBootstrapAfter after_registrations test_after_event) []))
       = [logged ''A'' (Resolves None), boom, logged ''B'' (Resolves None)]
   \<and> world_of (runWorkspaceBootstrapAfter after_registrations test_after_event) []
       = [''A'', ''B'']"
  using getHooks_priority_order [where regs = after_registrations
      and name = workspace_bootstrap_after and ?e5.0 = test_after_event and w = "[]"]
  by (simp add: run_defs runner_defs test_after_event_def after_registrations_def
      modifying_registrations_def tools_registrations_def logged_def boom_def)

text \<open>
  Claim C4. The sequential-modifying functions \<open>runSystemPromptToolsFilter\<close>,
  \<open>runSystemPromptSkillsFilter\<close> and \<open>runWorkspaceBootstrapBefore\<close>: every matching handler
  is called, in the order of \<open>getHooks\<close>, one after the other; the call number \<open>i\<close> receives
  the event with its mutable field (\<open>tools\<close>, \<open>skillsPrompt\<close>, \<open>files\<close>) replaced by
  \<open>current\<close>, which starts as the event's field and is folded over the outcomes of the calls
  before \<open>i\<close> by the rule of the specification (\<open>spec_next_tools\<close>, \<open>spec_next_skills\<close>,
  \<open>spec_next_files\<close>: replaced when the result contains the field, unchanged when the handler
  throws, rejects or returns nothing); the result carries the value of \<open>current\<close> after the
  last call.
\<close>

theorem sequential_modifying_chain:
  fixes regs :: "'w HookRegistration list" and tev sev bev
  defines "mt \<equiv> runSystemPromptToolsFilter regs tev"
    and "ms \<equiv> runSystemPromptSkillsFilter regs sev"
    and "mb \<equiv> runWorkspaceBootstrapBefore regs bev"
  shows "map call_hook (calls_of mt w) = getHooks regs system_prompt_tools_filter
    \<and> sequential_run w (calls_of mt w) (world_of mt w)
    \<and> (\<forall>i<length (calls_of mt w).
          call_event (calls_of mt w ! i) =
            ToolsFilterEvent (tev\<lparr>tools_tf :=
              foldl spec_next_tools (tools_tf tev) (map call_outcome (take i (calls_of mt w)))\<rparr>))
    \<and> result_of mt w = Inr (empty_object\<lparr>tools :=
          Some (foldl spec_next_tools (tools_tf tev) (map call_outcome (calls_of mt w)))\<rparr>)
    \<and> map call_hook (calls_of ms w) = getHooks regs system_prompt_skills_filter
    \<and> sequential_run w (calls_of ms w) (world_of ms w)
    \<and> (\<forall>i<length (calls_of ms w).
          call_event (calls_of ms w ! i) =
            SkillsFilterEvent (sev\<lparr>skillsPrompt_sf :=
              foldl spec_next_skills (skillsPrompt_sf sev)
                (map call_outcome (take i (calls_of ms w)))\<rparr>))
    \<and> result_of ms w = Inr (empty_object\<lparr>skillsPrompt :=
          Some (foldl spec_next_skills (skillsPrompt_sf sev) (map call_outcome (calls_of ms w)))\<rparr>)
    \<and> map call_hook (calls_of mb w) = getHooks regs workspace_bootstrap_before
    \<and> sequential_run w (calls_of mb w) (world_of mb w)
    \<and> (\<forall>i<length (calls_of mb w).
          call_event (calls_of mb w ! i) =
            BootstrapBeforeEvent (bev\<lparr>files_bb :=
              foldl spec_next_files (files_bb bev) (map call_outcome (take i (calls_of mb w)))\<rparr>))
    \<and> (\<exists>sk. result_of mb w = Inr (empty_object\<lparr>
          files := Some (foldl spec_next_files (files_bb bev) (map call_outcome (calls_of mb w))),
          skip := Some sk\<rparr>))"
proof -
  note t = runSystemPromptToolsFilter_facts [where regs = regs and ev = tev and w = w]
  note s = runSystemPromptSkillsFilter_facts [where regs = regs and ev = sev and w = w]
  note b = runWorkspaceBootstrapBefore_facts [where regs = regs and ev = bev and w = w]
  have t3: "\<forall>i<length (calls_of mt w).
          call_event (calls_of mt w ! i) =
            ToolsFilterEvent (tev\<lparr>tools_tf :=
              foldl spec_next_tools (tools_tf tev) (map call_outcome (take i (calls_of mt w)))\<rparr>)"
    unfolding mt_def using chained_nth [OF t(3)] by blast
  have s3: "\<forall>i<length (calls_of ms w).
          call_event (calls_of ms w ! i) =
            SkillsFilterEvent (sev\<lparr>skillsPrompt_sf :=
              foldl spec_next_skills (skillsPrompt_sf sev)
                (map call_outcome (take i (calls_of ms w)))\<rparr>)"
    unfolding ms_def using chained_nth [OF s(3)] by blast
  have b3: "\<forall>i<length (calls_of mb w).
          call_event (calls_of mb w ! i) =
            BootstrapBeforeEvent (bev\<lparr>files_bb :=
              foldl spec_next_files (files_bb bev) (map call_outcome (take i (calls_of mb w)))\<rparr>)"
    unfolding mb_def using chained_nth [OF b(3)] by blast
  have b1: "\<exists>sk. result_of mb w = Inr (empty_object\<lparr>
          files := Some (foldl spec_next_files (files_bb bev) (map call_outcome (calls_of mb w))),
          skip := Some sk\<rparr>)"
    unfolding mb_def using b(1) by blast
  from t(1,2,4) s(1,2,4) b(2,4) t3 s3 b3 b1 show ?thesis
    unfolding mt_def ms_def mb_def by (intro conjI)
qed

text \<open>
  The tools filter of the test "chains multiple handlers in priority order" with a rejecting
  handler between A and B: the third call sees the list without \<open>exec\<close> that A returned and
  that \<open>boom\<close> left alone. The skills filter with a handler that returns nothing before one that
  strips the prompt, and the bootstrap with a handler that throws.
\<close>

theorem sequential_modifying_chain_witness:
  "(2::nat) < length (calls_of (runSystemPromptToolsFilter modifying_registrations
        test_tools_event) [])
   \<and> map call_outcome (take 2 (calls_of (runSystemPromptToolsFilter modifying_registrations
        test_tools_event) []))
       = [Inr (Some (empty_object\<lparr>tools :=
            Some [\<lparr>name_tool = ''read'', description = Some ''Read files''\<rparr>]\<rparr>)),
          Inl (JsError ''boom'')]
   \<and> call_event (calls_of (runSystemPromptToolsFilter modifying_registrations
        test_tools_event) [] ! 2)
       = ToolsFilterEvent (test_tools_event\<lparr>tools_tf :=
            [\<lparr>name_tool = ''read'', description = Some ''Read files''\<rparr>]\<rparr>)
   \<and> result_of (runSystemPromptToolsFilter modifying_registrations test_tools_event) []
       = Inr (empty_object\<lparr>tools :=
            Some [\<lparr>name_tool = ''read'', description = Some ''Read files''\<rparr>,
                  \<lparr>name_tool = ''custom'', description = Some ''added by B''\<rparr>]\<rparr>)
   \<and> (1::nat) < length (calls_of (runSystemPromptSkillsFilter modifying_registrations
        test_skills_event) [])
   \<and> call_event (calls_of (runSystemPromptSkillsFilter modifying_registrations
        test_skills_event) [] ! 1) = SkillsFilterEvent test_skills_event
   \<and> result_of (runSystemPromptSkillsFilter modifying_registrations test_skills_event) []
       = Inr (empty_object\<lparr>skillsPrompt := Some ''''\<rparr>)
   \<and> (2::nat) < length (calls_of (runWorkspaceBootstrapBefore modifying_registrations
        test_before_event) [])
   \<and> call_event (calls_of (runWorkspaceBootstrapBefore modifying_registrations
        test_before_event) [] ! 2) = BootstrapBeforeEvent test_before_event
   \<and> result_of (runWorkspaceBootstrapBefore modifying_registrations test_before_event) []
       = Inr (empty_object\<lparr>
            files := Some [\<lparr>name_file = ''AGENTS.md'', content = ''# Agents''\<rparr>,
                           \<lparr>name_file = ''SOUL.md'', content = ''# Soul''\<rparr>],
            skip := Some True\<rparr>)"
  using sequential_modifying_chain [where regs = modifying_registrations
      and tev = test_tools_event and sev = test_skills_event and bev = test_before_event
      and w = "[]"]
  by (simp add: run_defs runner_defs modifying_registrations_def tools_registrations_def
      test_tools_event_def test_skills_event_def test_before_event_def logged_def boom_def
      boom_sync_def remove_exec_def add_custom_def remove_tools_md_def skip_bootstrap_def)

text \<open>
  Claim C5. \<open>runWorkspaceBootstrapBefore\<close>: the returned \<open>skip\<close> is true exactly when some
  call of the run did not throw and returned a result with \<open>skip\<close> true, wherever in the
  chain that call is, so a later \<open>skip: false\<close> does not reset it; setting \<open>skip\<close> ends
  nothing: every matching handler is called, and the returned files are the fold over the
  outcomes of all calls, those after the skip included.
\<close>

theorem skip_is_monotonic_or:
  fixes regs :: "'w HookRegistration list" and ev
  defines "m \<equiv> runWorkspaceBootstrapBefore regs ev"
  shows "map call_hook (calls_of m w) = getHooks regs workspace_bootstrap_before
    \<and> sequential_run w (calls_of m w) (world_of m w)
    \<and> result_of m w = Inr (empty_object\<lparr>
          files := Some (foldl spec_next_files (files_bb ev) (map call_outcome (calls_of m w))),
          skip := Some (list_ex (\<lambda>c. sets_skip (call_outcome c)) (calls_of m w))\<rparr>)"
  unfolding m_def
  using runWorkspaceBootstrapBefore_facts(1,2,4) [where regs = regs and ev = ev and w = w]
  by (intro conjI)

text \<open>
  The handler of the test "allows a handler to skip bootstrap entirely" at priority 10, a
  throwing handler at 7 and the handler of "allows a handler to remove template files", which
  returns \<open>skip: false\<close>, at 5: all three are called, \<open>skip\<close> stays true and \<open>TOOLS.md\<close> is
  removed.
\<close>

theorem skip_is_monotonic_or_witness:
  "map call_outcome
      (calls_of (runWorkspaceBootstrapBefore modifying_registrations test_before_event) [])
     = [Inr (Some (empty_object\<lparr>files := Some (files_bb test_before_event),
                                  skip := Some True\<rparr>)),
        Inl (JsError ''boom''),
        Inr (Some (empty_object\<lparr>
           files := Some [\<lparr>name_file = ''AGENTS.md'', content = ''# Agents''\<rparr>,
                          \<lparr>name_file = ''SOUL.md'', content = ''# Soul''\<rparr>],
           skip := Some False\<rparr>))]
   \<and> world_of (runWorkspaceBootstrapBefore modifying_registrations test_before_event) []
       = [''skip'', ''remove'']
   \<and> result_of (runWorkspaceBootstrapBefore modifying_registrations test_before_event) []
       = Inr (empty_object\<lparr>
            files := Some [\<lparr>name_file = ''AGENTS.md'', content = ''# Agents''\<rparr>,
                           \<lparr>name_file = ''SOUL.md'', content = ''# Soul''\<rparr>],
            skip := Some True\<rparr>)"
  using skip_is_monotonic_or [where regs = modifying_registrations
      and ev = test_before_event and w = "[]"]
  by (simp add: run_defs runner_defs modifying_registrations_def tools_registrations_def
      test_before_event_def boom_sync_def remove_tools_md_def skip_bootstrap_def)

text \<open>
  Claim C6. \<open>runSystemPromptFooter\<close>: every matching handler is called, in the order of
  \<open>getHooks\<close>, one after the other, each with the original event; \<open>append\<close> is the non-empty
  fragments of the calls that did not throw, in the order of the calls, joined with one
  newline between two fragments; with no fragment (no handler, or none that contributes)
  \<open>append\<close> is present and is the empty string.
\<close>

theorem footer_joins_fragments:
  fixes regs :: "'w HookRegistration list" and ev
  defines "m \<equiv> runSystemPromptFooter regs ev"
  shows "map call_hook (calls_of m w) = getHooks regs system_prompt_footer
    \<and> list_all (\<lambda>c. call_event c = FooterEvent ev) (calls_of m w)
    \<and> sequential_run w (calls_of m w) (world_of m w)
    \<and> result_of m w = Inr (empty_object\<lparr>append_ft :=
          Some (join newline (concat (map (\<lambda>c. fragment (call_outcome c)) (calls_of m w))))\<rparr>)
    \<and> (concat (map (\<lambda>c. fragment (call_outcome c)) (calls_of m w)) = [] \<longrightarrow>
          result_of m w = Inr (empty_object\<lparr>append_ft := Some []\<rparr>))
    \<and> join newline [a, b] = a @ [CHR 0x0A] @ b"
proof -
  note f = runSystemPromptFooter_facts [where regs = regs and ev = ev and w = w]
  have e: "concat (map (\<lambda>c. fragment (call_outcome c)) (calls_of m w)) = [] \<longrightarrow>
          result_of m w = Inr (empty_object\<lparr>append_ft := Some []\<rparr>)"
  proof
    assume "concat (map (\<lambda>c. fragment (call_outcome c)) (calls_of m w)) = []"
    with f(1) show "result_of m w = Inr (empty_object\<lparr>append_ft := Some []\<rparr>)"
      unfolding m_def by (simp del: concat_eq_Nil_conv)
  qed
  have j: "join newline [a, b] = a @ [CHR 0x0A] @ b"
    by (simp add: newline_def)
  from f e j show ?thesis
    unfolding m_def by (intro conjI)
qed

text \<open>
  "A" at priority 10 and "B" at priority 5, registered in the other order, with a rejecting
  handler and one that returns the empty string between them: the footer is A, a newline, B.
  With only a rejecting handler, and with no registration at all, it is the empty string.
\<close>

theorem footer_joins_fragments_witness:
  "map (\<lambda>c. fragment (call_outcome c))
      (calls_of (runSystemPromptFooter footer_registrations test_footer_event) [])
     = [[''A''], [], [], [''B'']]
   \<and> result_of (runSystemPromptFooter footer_registrations test_footer_event) []
       = Inr (empty_object\<lparr>append_ft := Some [CHR ''A'', CHR 0x0A, CHR ''B'']\<rparr>)
   \<and> concat (map (\<lambda>c. fragment (call_outcome c))
        (calls_of (runSystemPromptFooter failing_registrations test_footer_event) [])) = []
   \<and> length (calls_of (runSystemPromptFooter failing_registrations test_footer_event) []) = 1
   \<and> result_of (runSystemPromptFooter failing_registrations test_footer_event) []
       = Inr (empty_object\<lparr>append_ft := Some ''''\<rparr>)
   \<and> result_of (runSystemPromptFooter ([] :: Log HookRegistration list) test_footer_event) []
       = Inr (empty_object\<lparr>append_ft := Some ''''\<rparr>)"
  using footer_joins_fragments [where regs = footer_registrations
      and ev = test_footer_event and w = "[]"]
    footer_joins_fragments [where regs = failing_registrations
      and ev = test_footer_event and w = "[]"]
    footer_joins_fragments [where regs = "[] :: Log HookRegistration list"
      and ev = test_footer_event and w = "[]"]
  by (simp add: run_defs runner_defs footer_registrations_def failing_registrations_def
      test_footer_event_def logged_def boom_def)

text \<open>
  Claim C7. When no registration matches a hook name, \<open>hasHooks\<close> is false for it and the
  hook's invocation function calls no handler, leaves the state as it is and returns the
  identity: \<open>{ tools: event.tools }\<close>, \<open>{ skillsPrompt: event.skillsPrompt }\<close>,
  \<open>{ append: "" }\<close>, \<open>{ files: event.files, skip: false }\<close>, nothing, \<open>{ block: false }\<close>.
\<close>

theorem no_registration_gives_identity:
  fixes regs :: "'w HookRegistration list"
  shows "((\<forall>r\<in>set regs. hookName r \<noteq> system_prompt_tools_filter) \<longrightarrow>
        \<not> hasHooks regs system_prompt_tools_filter \<and>
        runSystemPromptToolsFilter regs e1 s = (Inr (empty_object\<lparr>tools := Some (tools_tf e1)\<rparr>), s))
    \<and> ((\<forall>r\<in>set regs. hookName r \<noteq> system_prompt_skills_filter) \<longrightarrow>
        \<not> hasHooks regs system_prompt_skills_filter \<and>
        runSystemPromptSkillsFilter regs e2 s =
          (Inr (empty_object\<lparr>skillsPrompt := Some (skillsPrompt_sf e2)\<rparr>), s))
    \<and> ((\<forall>r\<in>set regs. hookName r \<noteq> system_prompt_footer) \<longrightarrow>
        \<not> hasHooks regs system_prompt_footer \<and>
        runSystemPromptFooter regs e3 s = (Inr (empty_object\<lparr>append_ft := Some []\<rparr>), s))
    \<and> ((\<forall>r\<in>set regs. hookName r \<noteq> workspace_bootstrap_before) \<longrightarrow>
        \<not> hasHooks regs workspace_bootstrap_before \<and>
        runWorkspaceBootstrapBefore regs e4 s =
          (Inr (empty_object\<lparr>files := Some (files_bb e4), skip := Some False\<rparr>), s))
    \<and> ((\<forall>r\<in>set regs. hookName r \<noteq> workspace_bootstrap_after) \<longrightarrow>
        \<not> hasHooks regs workspace_bootstrap_after \<and>
        runWorkspaceBootstrapAfter regs e5 s = (Inr (), s))
    \<and> ((\<forall>r\<in>set regs. hookName r \<noteq> subagent_prompt_validate) \<longrightarrow>
        \<not> hasHooks regs subagent_prompt_validate \<and>
        runSubagentPromptValidate regs e6 s = (Inr (empty_object\<lparr>block := Some False\<rparr>), s))"
  by (simp add: hasHooks_iff getHooks_no_match runSystemPromptToolsFilter_def
      runSystemPromptSkillsFilter_def runSystemPromptFooter_def runWorkspaceBootstrapBefore_def
      runWorkspaceBootstrapAfter_def runSubagentPromptValidate_def bind_async_def resolve_def)

text \<open>
  A list with footer handlers only, for the five other hooks; a list with validate handlers
  only and the empty list, for the footer.
\<close>

theorem no_registration_gives_identity_witness:
  "list_all (\<lambda>r. hookName r \<noteq> system_prompt_tools_filter) footer_registrations
   \<and> \<not> hasHooks footer_registrations system_prompt_tools_filter
   \<and> runSystemPromptToolsFilter footer_registrations test_tools_event (start [])
       = (Inr (empty_object\<lparr>tools := Some (tools_tf test_tools_event)\<rparr>), start [])
   \<and> runSystemPromptSkillsFilter footer_registrations test_skills_event (start [])
       = (Inr (empty_object\<lparr>skillsPrompt := Some (skillsPrompt_sf test_skills_event)\<rparr>),
          start [])
   \<and> runWorkspaceBootstrapBefore footer_registrations test_before_event (start [])
       = (Inr (empty_object\<lparr>files := Some (files_bb test_before_event), skip := Some False\<rparr>),
          start [])
   \<and> runWorkspaceBootstrapAfter footer_registrations test_after_event (start [])
       = (Inr (), start [])
   \<and> runSubagentPromptValidate footer_registrations test_validate_event (start [])
       = (Inr (empty_object\<lparr>block := Some False\<rparr>), start [])
   \<and> hasHooks footer_registrations system_prompt_footer
   \<and> list_all (\<lambda>r. hookName r \<noteq> system_prompt_footer) validate_registrations
   \<and> \<not> hasHooks validate_registrations system_prompt_footer
   \<and> runSystemPromptFooter validate_registrations test_footer_event (start [])
       = (Inr (empty_object\<lparr>append_ft := Some ''''\<rparr>), start [])
   \<and> runSystemPromptFooter ([] :: Log HookRegistration list) test_footer_event (start [])
       = (Inr (empty_object\<lparr>append_ft := Some ''''\<rparr>), start [])"
  using no_registration_gives_identity [where regs = footer_registrations
      and ?e1.0 = test_tools_event and ?e2.0 = test_skills_event and ?e3.0 = test_footer_event
      and ?e4.0 = test_before_event and ?e5.0 = test_after_event and ?e6.0 = test_validate_event
      and s = "start []"]
    no_registration_gives_identity [where regs = validate_registrations
      and ?e3.0 = test_footer_event and s = "start []"]
    no_registration_gives_identity [where regs = "[] :: Log HookRegistration list"
      and ?e3.0 = test_footer_event and s = "start []"]
  by (simp add: hasHooks_def footer_registrations_def validate_registrations_def)

text \<open>
  Claim C9. The sequential-modifying functions \<open>runSystemPromptToolsFilter\<close>,
  \<open>runSystemPromptSkillsFilter\<close> and \<open>runWorkspaceBootstrapBefore\<close>, with the event objects
  behind references in a store and the caller's event a valid reference: every matching
  handler is called, in the order of \<open>getHooks\<close>, and every call is handed a freshly
  constructed object (\<open>handed_fresh_views\<close>): a reference that no object had before, to an
  object that the runner adds to the store without changing any object that was there, and
  that is the caller's event with its mutable field replaced by the value of \<open>current\<close> at
  that call. The runner's own steps write nothing else to the store, so it changes the
  caller's event object at no point. When the handlers keep the contract that the event is
  immutable (\<open>handlers_kept\<close>: no call changed the object behind the caller's reference or
  removed an object), the caller's object is after the run what it was before, no call was
  handed the caller's reference, and the object handed to the call number \<open>i\<close> has the
  non-mutable fields of the original event (\<open>agentId\<close> and \<open>promptMode\<close>, or
  \<open>workspaceDir\<close> and \<open>isNewWorkspace\<close>) and the current folded value.
\<close>

theorem fresh_event_object_per_call:
  fixes tregs :: "(SystemPromptToolsFilterEvent list \<times> 'u) HookRegistration list"
    and sregs :: "(SystemPromptSkillsFilterEvent list \<times> 'v) HookRegistration list"
    and bregs :: "(WorkspaceBootstrapBeforeEvent list \<times> 'x) HookRegistration list"
    and tev sev bev :: Ref and tst sst bst tu su bu
  defines "tF \<equiv> obj_final_of (runSystemPromptToolsFilter_obj tregs tev) tst tu"
    and "sF \<equiv> obj_final_of (runSystemPromptSkillsFilter_obj sregs sev) sst su"
    and "bF \<equiv> obj_final_of (runWorkspaceBootstrapBefore_obj bregs bev) bst bu"
  assumes "tev < length tst" and "sev < length sst" and "bev < length bst"
  shows "map oc_hook (obj_calls tF) = getHooks tregs system_prompt_tools_filter
    \<and> handed_fresh_views tev ToolsFilterEvent (\<lambda>current e. e\<lparr>tools_tf := current\<rparr>)
        spec_next_tools (tools_tf (tst ! tev)) tst (obj_calls tF) (objects tF)
    \<and> obj_result_of (runSystemPromptToolsFilter_obj tregs tev) tst tu =
        Inr (empty_object\<lparr>tools :=
          Some (foldl spec_next_tools (tools_tf (tst ! tev)) (map oc_outcome (obj_calls tF)))\<rparr>)
    \<and> (handlers_kept tev (obj_calls tF) \<longrightarrow>
          objects tF ! tev = tst ! tev \<and>
          (\<forall>i<length (obj_calls tF).
             oc_ref (obj_calls tF ! i) \<noteq> tev \<and>
             oc_objects (obj_calls tF ! i) ! oc_ref (obj_calls tF ! i) =
               \<lparr>agentId_tf = agentId_tf (tst ! tev), promptMode_tf = promptMode_tf (tst ! tev),
                tools_tf = foldl spec_next_tools (tools_tf (tst ! tev))
                  (map oc_outcome (take i (obj_calls tF)))\<rparr>))
    \<and> map oc_hook (obj_calls sF) = getHooks sregs system_prompt_skills_filter
    \<and> handed_fresh_views sev SkillsFilterEvent (\<lambda>current e. e\<lparr>skillsPrompt_sf := current\<rparr>)
        spec_next_skills (skillsPrompt_sf (sst ! sev)) sst (obj_calls sF) (objects sF)
    \<and> obj_result_of (runSystemPromptSkillsFilter_obj sregs sev) sst su =
        Inr (empty_object\<lparr>skillsPrompt :=
          Some (foldl spec_next_skills (skillsPrompt_sf (sst ! sev))
            (map oc_outcome (obj_calls sF)))\<rparr>)
    \<and> (handlers_kept sev (obj_calls sF) \<longrightarrow>
          objects sF ! sev = sst ! sev \<and>
          (\<forall>i<length (obj_calls sF).
             oc_ref (obj_calls sF ! i) \<noteq> sev \<and>
             oc_objects (obj_calls sF ! i) ! oc_ref (obj_calls sF ! i) =
               \<lparr>agentId_sf = agentId_sf (sst ! sev), promptMode_sf = promptMode_sf (sst ! sev),
                skillsPrompt_sf = foldl spec_next_skills (skillsPrompt_sf (sst ! sev))
                  (map oc_outcome (take i (obj_calls sF)))\<rparr>))
    \<and> map oc_hook (obj_calls bF) = getHooks bregs workspace_bootstrap_before
    \<and> handed_fresh_views bev BootstrapBeforeEvent (\<lambda>current e. e\<lparr>files_bb := current\<rparr>)
        spec_next_files (files_bb (bst ! bev)) bst (obj_calls bF) (objects bF)
    \<and> obj_result_of (runWorkspaceBootstrapBefore_obj bregs bev) bst bu =
        Inr (empty_object\<lparr>
          files := Some (foldl spec_next_files (files_bb (bst ! bev))
            (map oc_outcome (obj_calls bF))),
          skip := Some (list_ex (\<lambda>c. sets_skip (oc_outcome c)) (obj_calls bF))\<rparr>)
    \<and> (handlers_kept bev (obj_calls bF) \<longrightarrow>
          objects bF ! bev = bst ! bev \<and>
          (\<forall>i<length (obj_calls bF).
             oc_ref (obj_calls bF ! i) \<noteq> bev \<and>
             oc_objects (obj_calls bF ! i) ! oc_ref (obj_calls bF ! i) =
               \<lparr>workspaceDir_bb = workspaceDir_bb (bst ! bev),
                files_bb = foldl spec_next_files (files_bb (bst ! bev))
                  (map oc_outcome (take i (obj_calls bF))),
                isNewWorkspace = isNewWorkspace (bst ! bev)\<rparr>))"
proof -
  from runSystemPromptToolsFilter_obj_run [of tregs tev tst tu]
  obtain tcs tw where t:
    "runSystemPromptToolsFilter_obj tregs tev (obj_start tst tu) =
       (Inr (empty_object\<lparr>tools :=
          Some (foldl spec_next_tools (tools_tf (tst ! tev)) (map oc_outcome tcs))\<rparr>),
        \<lparr>objects = fst tw, rest = snd tw, obj_calls = tcs\<rparr>)"
    "map oc_hook tcs = getHooks tregs system_prompt_tools_filter"
    "obj_run tev ToolsFilterEvent (\<lambda>c e. e\<lparr>tools_tf := c\<rparr>) spec_next_tools
          (tools_tf (tst ! tev)) (tst, tu) tcs tw"
    by blast
  from t(1) have tF: "obj_calls tF = tcs" "objects tF = fst tw"
    by (simp_all add: tF_def obj_final_of_def)
  from obj_run_fresh_views [OF t(3)] have t2:
    "handed_fresh_views tev ToolsFilterEvent (\<lambda>current e. e\<lparr>tools_tf := current\<rparr>)
        spec_next_tools (tools_tf (tst ! tev)) tst (obj_calls tF) (objects tF)"
    by (simp add: tF)
  from t(1) have t3: "obj_result_of (runSystemPromptToolsFilter_obj tregs tev) tst tu =
        Inr (empty_object\<lparr>tools :=
          Some (foldl spec_next_tools (tools_tf (tst ! tev)) (map oc_outcome (obj_calls tF)))\<rparr>)"
    by (simp add: obj_result_of_def tF)
  have t4: "handlers_kept tev (obj_calls tF) \<longrightarrow>
          objects tF ! tev = tst ! tev \<and>
          (\<forall>i<length (obj_calls tF).
             oc_ref (obj_calls tF ! i) \<noteq> tev \<and>
             oc_objects (obj_calls tF ! i) ! oc_ref (obj_calls tF ! i) =
               \<lparr>agentId_tf = agentId_tf (tst ! tev), promptMode_tf = promptMode_tf (tst ! tev),
                tools_tf = foldl spec_next_tools (tools_tf (tst ! tev))
                  (map oc_outcome (take i (obj_calls tF)))\<rparr>)"
  proof
    assume "handlers_kept tev (obj_calls tF)"
    with obj_run_kept [OF t(3)] assms(4) show "objects tF ! tev = tst ! tev \<and>
          (\<forall>i<length (obj_calls tF).
             oc_ref (obj_calls tF ! i) \<noteq> tev \<and>
             oc_objects (obj_calls tF ! i) ! oc_ref (obj_calls tF ! i) =
               \<lparr>agentId_tf = agentId_tf (tst ! tev), promptMode_tf = promptMode_tf (tst ! tev),
                tools_tf = foldl spec_next_tools (tools_tf (tst ! tev))
                  (map oc_outcome (take i (obj_calls tF)))\<rparr>)"
      by (simp add: tF)
  qed
  from runSystemPromptSkillsFilter_obj_run [of sregs sev sst su]
  obtain scs sw where s:
    "runSystemPromptSkillsFilter_obj sregs sev (obj_start sst su) =
       (Inr (empty_object\<lparr>skillsPrompt :=
          Some (foldl spec_next_skills (skillsPrompt_sf (sst ! sev)) (map oc_outcome scs))\<rparr>),
        \<lparr>objects = fst sw, rest = snd sw, obj_calls = scs\<rparr>)"
    "map oc_hook scs = getHooks sregs system_prompt_skills_filter"
    "obj_run sev SkillsFilterEvent (\<lambda>c e. e\<lparr>skillsPrompt_sf := c\<rparr>) spec_next_skills
          (skillsPrompt_sf (sst ! sev)) (sst, su) scs sw"
    by blast
  from s(1) have sF: "obj_calls sF = scs" "objects sF = fst sw"
    by (simp_all add: sF_def obj_final_of_def)
  from obj_run_fresh_views [OF s(3)] have s2:
    "handed_fresh_views sev SkillsFilterEvent (\<lambda>current e. e\<lparr>skillsPrompt_sf := current\<rparr>)
        spec_next_skills (skillsPrompt_sf (sst ! sev)) sst (obj_calls sF) (objects sF)"
    by (simp add: sF)
  from s(1) have s3: "obj_result_of (runSystemPromptSkillsFilter_obj sregs sev) sst su =
        Inr (empty_object\<lparr>skillsPrompt :=
          Some (foldl spec_next_skills (skillsPrompt_sf (sst ! sev))
            (map oc_outcome (obj_calls sF)))\<rparr>)"
    by (simp add: obj_result_of_def sF)
  have s4: "handlers_kept sev (obj_calls sF) \<longrightarrow>
          objects sF ! sev = sst ! sev \<and>
          (\<forall>i<length (obj_calls sF).
             oc_ref (obj_calls sF ! i) \<noteq> sev \<and>
             oc_objects (obj_calls sF ! i) ! oc_ref (obj_calls sF ! i) =
               \<lparr>agentId_sf = agentId_sf (sst ! sev), promptMode_sf = promptMode_sf (sst ! sev),
                skillsPrompt_sf = foldl spec_next_skills (skillsPrompt_sf (sst ! sev))
                  (map oc_outcome (take i (obj_calls sF)))\<rparr>)"
  proof
    assume "handlers_kept sev (obj_calls sF)"
    with obj_run_kept [OF s(3)] assms(5) show "objects sF ! sev = sst ! sev \<and>
          (\<forall>i<length (obj_calls sF).
             oc_ref (obj_calls sF ! i) \<noteq> sev \<and>
             oc_objects (obj_calls sF ! i) ! oc_ref (obj_calls sF ! i) =
               \<lparr>agentId_sf = agentId_sf (sst ! sev), promptMode_sf = promptMode_sf (sst ! sev),
                skillsPrompt_sf = foldl spec_next_skills (skillsPrompt_sf (sst ! sev))
                  (map oc_outcome (take i (obj_calls sF)))\<rparr>)"
      by (simp add: sF)
  qed
  from runWorkspaceBootstrapBefore_obj_run [of bregs bev bst bu]
  obtain bcs bw where b:
    "runWorkspaceBootstrapBefore_obj bregs bev (obj_start bst bu) =
       (Inr (empty_object\<lparr>
          files := Some (foldl spec_next_files (files_bb (bst ! bev)) (map oc_outcome bcs)),
          skip := Some (list_ex (\<lambda>c. sets_skip (oc_outcome c)) bcs)\<rparr>),
        \<lparr>objects = fst bw, rest = snd bw, obj_calls = bcs\<rparr>)"
    "map oc_hook bcs = getHooks bregs workspace_bootstrap_before"
    "obj_run bev BootstrapBeforeEvent (\<lambda>c e. e\<lparr>files_bb := c\<rparr>) spec_next_files
          (files_bb (bst ! bev)) (bst, bu) bcs bw"
    by blast
  from b(1) have bF: "obj_calls bF = bcs" "objects bF = fst bw"
    by (simp_all add: bF_def obj_final_of_def)
  from obj_run_fresh_views [OF b(3)] have b2:
    "handed_fresh_views bev BootstrapBeforeEvent (\<lambda>current e. e\<lparr>files_bb := current\<rparr>)
        spec_next_files (files_bb (bst ! bev)) bst (obj_calls bF) (objects bF)"
    by (simp add: bF)
  from b(1) have b3: "obj_result_of (runWorkspaceBootstrapBefore_obj bregs bev) bst bu =
        Inr (empty_object\<lparr>
          files := Some (foldl spec_next_files (files_bb (bst ! bev))
            (map oc_outcome (obj_calls bF))),
          skip := Some (list_ex (\<lambda>c. sets_skip (oc_outcome c)) (obj_calls bF))\<rparr>)"
    by (simp add: obj_result_of_def bF)
  have b4: "handlers_kept bev (obj_calls bF) \<longrightarrow>
          objects bF ! bev = bst ! bev \<and>
          (\<forall>i<length (obj_calls bF).
             oc_ref (obj_calls bF ! i) \<noteq> bev \<and>
             oc_objects (obj_calls bF ! i) ! oc_ref (obj_calls bF ! i) =
               \<lparr>workspaceDir_bb = workspaceDir_bb (bst ! bev),
                files_bb = foldl spec_next_files (files_bb (bst ! bev))
                  (map oc_outcome (take i (obj_calls bF))),
                isNewWorkspace = isNewWorkspace (bst ! bev)\<rparr>)"
  proof
    assume "handlers_kept bev (obj_calls bF)"
    with obj_run_kept [OF b(3)] assms(6) show "objects bF ! bev = bst ! bev \<and>
          (\<forall>i<length (obj_calls bF).
             oc_ref (obj_calls bF ! i) \<noteq> bev \<and>
             oc_objects (obj_calls bF ! i) ! oc_ref (obj_calls bF ! i) =
               \<lparr>workspaceDir_bb = workspaceDir_bb (bst ! bev),
                files_bb = foldl spec_next_files (files_bb (bst ! bev))
                  (map oc_outcome (take i (obj_calls bF))),
                isNewWorkspace = isNewWorkspace (bst ! bev)\<rparr>)"
      by (simp add: bF)
  qed
  from t(2) s(2) b(2) tF sF bF t2 t3 t4 s2 s3 s4 b2 b3 b4 show ?thesis
    by (intro conjI) simp_all
qed

text \<open>
  The tools filter over a store that holds another event at reference 0 and the caller's event
  at reference 1, with the handlers A (10), \<open>scribble\<close> (9), \<open>boom\<close> (8) and B (5): the calls
  are handed the new references 2, 3, 4 and 5; \<open>scribble\<close> is handed the caller's fields with
  the tools that A left and writes to the object it was handed, which changes the object at 3
  and nothing else; the caller's event at 1 is as it was. The skills filter and the bootstrap
  over a store that holds the caller's event only.
\<close>

theorem fresh_event_object_per_call_witness:
  "(1::nat) < length [other_tools_event, test_tools_event]
   \<and> map oc_ref (obj_calls (obj_final_of
        (runSystemPromptToolsFilter_obj tools_store_registrations 1)
        [other_tools_event, test_tools_event] [])) = [2, 3, 4, 5]
   \<and> handlers_kept 1 (obj_calls (obj_final_of
        (runSystemPromptToolsFilter_obj tools_store_registrations 1)
        [other_tools_event, test_tools_event] []))
   \<and> objects (obj_final_of (runSystemPromptToolsFilter_obj tools_store_registrations 1)
        [other_tools_event, test_tools_event] [])
       = [other_tools_event, test_tools_event, test_tools_event,
          \<lparr>agentId_tf = ''scribbled'', promptMode_tf = ''full'',
           tools_tf = [\<lparr>name_tool = ''read'', description = Some ''Read files''\<rparr>]\<rparr>,
          \<lparr>agentId_tf = ''main'', promptMode_tf = ''full'',
           tools_tf = [\<lparr>name_tool = ''read'', description = Some ''Read files''\<rparr>]\<rparr>,
          \<lparr>agentId_tf = ''main'', promptMode_tf = ''full'',
           tools_tf = [\<lparr>name_tool = ''read'', description = Some ''Read files''\<rparr>]\<rparr>]
   \<and> oc_objects (obj_calls (obj_final_of
        (runSystemPromptToolsFilter_obj tools_store_registrations 1)
        [other_tools_event, test_tools_event] []) ! 1) ! 3
       = \<lparr>agentId_tf = ''main'', promptMode_tf = ''full'',
          tools_tf = [\<lparr>name_tool = ''read'', description = Some ''Read files''\<rparr>]\<rparr>
   \<and> rest (obj_final_of (runSystemPromptToolsFilter_obj tools_store_registrations 1)
        [other_tools_event, test_tools_event] []) = [''A'', ''S'', ''B'']
   \<and> obj_result_of (runSystemPromptToolsFilter_obj tools_store_registrations 1)
        [other_tools_event, test_tools_event] []
       = Inr (empty_object\<lparr>tools :=
            Some [\<lparr>name_tool = ''read'', description = Some ''Read files''\<rparr>,
                  \<lparr>name_tool = ''custom'', description = Some ''added by B''\<rparr>]\<rparr>)
   \<and> (0::nat) < length [test_skills_event]
   \<and> map oc_ref (obj_calls (obj_final_of
        (runSystemPromptSkillsFilter_obj (map store_registration modifying_registrations) 0)
        [test_skills_event] [])) = [1, 2]
   \<and> handlers_kept 0 (obj_calls (obj_final_of
        (runSystemPromptSkillsFilter_obj (map store_registration modifying_registrations) 0)
        [test_skills_event] []))
   \<and> objects (obj_final_of
        (runSystemPromptSkillsFilter_obj (map store_registration modifying_registrations) 0)
        [test_skills_event] []) = [test_skills_event, test_skills_event, test_skills_event]
   \<and> (0::nat) < length [test_before_event]
   \<and> map oc_ref (obj_calls (obj_final_of
        (runWorkspaceBootstrapBefore_obj (map store_registration modifying_registrations) 0)
        [test_before_event] [])) = [1, 2, 3]
   \<and> handlers_kept 0 (obj_calls (obj_final_of
        (runWorkspaceBootstrapBefore_obj (map store_registration modifying_registrations) 0)
        [test_before_event] []))
   \<and> objects (obj_final_of
        (runWorkspaceBootstrapBefore_obj (map store_registration modifying_registrations) 0)
        [test_before_event] [])
       = [test_before_event, test_before_event, test_before_event, test_before_event]
   \<and> obj_result_of
        (runWorkspaceBootstrapBefore_obj (map store_registration modifying_registrations) 0)
        [test_before_event] []
       = Inr (empty_object\<lparr>
            files := Some [\<lparr>name_file = ''AGENTS.md'', content = ''# Agents''\<rparr>,
                           \<lparr>name_file = ''SOUL.md'', content = ''# Soul''\<rparr>],
            skip := Some True\<rparr>)"
  using fresh_event_object_per_call [where tregs = tools_store_registrations and tev = 1
      and tst = "[other_tools_event, test_tools_event]" and tu = "[]"
      and sregs = "map store_registration modifying_registrations" and sev = 0
      and sst = "[test_skills_event]" and su = "[]"
      and bregs = "map store_registration modifying_registrations" and bev = 0
      and bst = "[test_before_event]" and bu = "[]"]
  by (simp only: store_runs)

text \<open>
  Claim C10. \<open>getHooks\<close>, which every invocation function calls first and which is the only
  code of the runner that writes to an array made from the registration list, leaves the
  caller's list as it was:
  after any sequence of invocations the array behind \<open>registrations\<close> holds the same
  registrations in the same order, every array that existed before is unchanged (the sort
  works on a copy of the filtered array), and an invocation for a hook name iterates over the
  same hooks in the same order whatever invocations came before.
\<close>

theorem registrations_unchanged:
  assumes "registrations < length st"
  shows "after_invocations registrations names st ! registrations = st ! registrations
    \<and> take (length st) (after_invocations registrations names st) = st
    \<and> hooks_seen registrations name (after_invocations registrations names st)
        = getHooks (st ! registrations) name
    \<and> hooks_seen registrations name (after_invocations registrations names st)
        = hooks_seen registrations name st"
proof -
  from after_invocations_frame [OF assms, of names] obtain more where
    eq: "after_invocations registrations names st = st @ more" by blast
  from assms have "registrations < length (st @ more)" by simp
  from hooks_seen_eq [OF this, of name] hooks_seen_eq [OF assms, of name] assms eq
  show ?thesis
    by (simp add: nth_append)
qed

text \<open>
  A store that holds the registration list at reference 0: after an invocation of the tools
  filter and one of the footer, the list is as registered (priorities 5, 7, 8, 10), and the tools
  filter still sees its three hooks in the order 10, 8, 5.
\<close>

theorem registrations_unchanged_witness:
  "(0::nat) < length [tools_registrations]
   \<and> after_invocations 0 [system_prompt_tools_filter, system_prompt_footer]
        [tools_registrations] ! 0 = tools_registrations
   \<and> map priority_or_0 (hooks_seen 0 system_prompt_tools_filter
        (after_invocations 0 [system_prompt_tools_filter, system_prompt_footer]
           [tools_registrations])) = [10, 8, 5]
   \<and> map priority_or_0 tools_registrations = [5, 7, 8, 10]"
  using registrations_unchanged [of 0 "[tools_registrations]"
      "[system_prompt_tools_filter, system_prompt_footer]" system_prompt_tools_filter]
  by (simp add: getHooks_def sortByPriority_def compare_priority_def priority_or_0_def
      tools_registrations_def)

text \<open>
  Claim C8 is about \<open>runWorkspaceBootstrapAfter\<close> in time: that the handlers' executions may
  overlap and that the promise resolves only once all have settled. The functions above have
  no notion of time. What they do say about this function is in lemma
  \<open>runWorkspaceBootstrapAfter_facts\<close>: every matching handler is called once, with the
  original event, a failing handler stops no other, and the promise is fulfilled.
\<close>

end
